theory Spec2Isabelle
  imports Complex_Main "HOL-Library.Word" "HOL-Library.Signed_Division" "HOL-Library.Multiset"
begin

text \<open>
  A shallow embedding of \<open>sokutei\<close>, a command-line benchmarking tool written in Go:
  the unit selection \<open>getMeasurementMetrics\<close>, the standard deviation \<open>stdev\<close> and
  the tokenizer \<open>list2Cmdline\<close> of its helper functions, the Windows process timer of
  \<open>measure_windows.go\<close>, and \<open>runBenchmark\<close>, \<open>runSetup\<close> and the comparison
  summary of \<open>main.go\<close>.  The definitions come first; the properties follow.
\<close>

section \<open>Machine integers and floating-point values of the Go program\<close>

text \<open>
  Go's \<open>int64\<close> is a 64-bit word read in two's complement: \<open>+\<close>, \<open>-\<close> and \<open>*\<close>
  wrap around, comparisons are signed.  The quotient \<open>a / b\<close> truncates towards zero
  and panics when \<open>b\<close> is zero.
\<close>

type_synonym int64 = "64 word"

datatype panic = IntegerDivideByZero | MakeSliceLenOutOfRange

definition slt :: "int64 \<Rightarrow> int64 \<Rightarrow> bool" where
  "slt a b = (sint a < sint b)"

definition quo64 :: "int64 \<Rightarrow> int64 \<Rightarrow> int64" where
  "quo64 a b = word_of_int (sint a sdiv sint b)"

definition go_div :: "int64 \<Rightarrow> int64 \<Rightarrow> panic + int64" where
  "go_div a b = (if b = 0 then Inl IntegerDivideByZero else Inr (quo64 a b))"

text \<open>
  \<open>float64\<close> is modelled at the level of the IEEE-754 special values: a finite value is
  the real number it denotes (\<open>Finite 0\<close> is \<open>+0\<close>), \<open>NegZero\<close> is \<open>-0\<close>, and the
  infinities and \<open>NaN\<close> are values of their own.  The operations follow the IEEE rules for
  zeros, infinities and \<open>NaN\<close>; on finite non-zero operands they return the exact real
  result, so rounding to 53 bits, overflow to infinity and underflow are outside this
  model.
\<close>

datatype float64 = Finite real | NegZero | PosInf | NegInf | NaN

definition float64_of_int64 :: "int64 \<Rightarrow> float64" where
  "float64_of_int64 x = Finite (real_of_int (sint x))"

definition float64_of_int :: "int \<Rightarrow> float64" where
  "float64_of_int x = Finite (real_of_int x)"

fun is_zero :: "float64 \<Rightarrow> bool" where
  "is_zero (Finite r) = (r = 0)"
| "is_zero NegZero = True"
| "is_zero _ = False"

fun is_inf :: "float64 \<Rightarrow> bool" where
  "is_inf PosInf = True"
| "is_inf NegInf = True"
| "is_inf _ = False"

fun signbit :: "float64 \<Rightarrow> bool" where
  "signbit (Finite r) = (r < 0)"
| "signbit NegZero = True"
| "signbit PosInf = False"
| "signbit NegInf = True"
| "signbit NaN = False"




definition signed_zero :: "bool \<Rightarrow> float64" where
  "signed_zero neg = (if neg then NegZero else Finite 0)"

definition signed_inf :: "bool \<Rightarrow> float64" where
  "signed_inf neg = (if neg then NegInf else PosInf)"

definition fdiv :: "float64 \<Rightarrow> float64 \<Rightarrow> float64" where
  "fdiv a b =
     (if a = NaN \<or> b = NaN then NaN
      else if is_zero a \<and> is_zero b then NaN
      else if is_inf a \<and> is_inf b then NaN
      else if is_inf a \<or> is_zero b then signed_inf (signbit a \<noteq> signbit b)
      else if is_zero a \<or> is_inf b then signed_zero (signbit a \<noteq> signbit b)
      else (case (a, b) of (Finite x, Finite y) \<Rightarrow> Finite (x / y) | _ \<Rightarrow> NaN))"


fun fsqrt :: "float64 \<Rightarrow> float64" where
  "fsqrt (Finite r) = (if r < 0 then NaN else Finite (sqrt r))"
| "fsqrt NegZero = NegZero"
| "fsqrt PosInf = PosInf"
| "fsqrt NegInf = NaN"
| "fsqrt NaN = NaN"

section \<open>Display units\<close>

text \<open>
  \<open>denominators\<close> holds \<open>time.Hour\<close>, \<open>time.Minute\<close>, \<open>time.Second\<close>,
  \<open>time.Millisecond\<close>, \<open>time.Microsecond\<close> and \<open>time.Nanosecond\<close> in nanoseconds;
  \<open>units\<close> holds the labels, the fifth being the two UTF-8 bytes of the micro sign
  followed by \<open>s\<close>.
\<close>

definition denominators :: "int64 list" where
  "denominators = [3600000000000, 60000000000, 1000000000, 1000000, 1000, 1]"

definition units :: "string list" where
  "units = [''h'', ''m'', ''s'', ''ms'', [CHR 0xC2, CHR 0xB5, CHR ''s''], ''ns'']"

text \<open>
  The loop of \<open>getMeasurementMetrics\<close> over \<open>denominators\<close>, from index \<open>i\<close> on: the
  first tier whose quotient is positive is returned with \<open>units[i]\<close>; when the list is
  exhausted the result is \<open>(0, "")\<close>.
\<close>

fun scan_denominators :: "int64 \<Rightarrow> nat \<Rightarrow> int64 list \<Rightarrow> panic + (float64 \<times> string)" where
  "scan_denominators timing i [] = Inr (Finite 0, [])"
| "scan_denominators timing i (denominator # rest) =
     (case go_div timing denominator of
        Inl p \<Rightarrow> Inl p
      | Inr q \<Rightarrow>
          if slt 0 q then Inr (float64_of_int64 denominator, units ! i)
          else scan_denominators timing (Suc i) rest)"

definition getMeasurementMetrics :: "int64 \<Rightarrow> panic + (float64 \<times> string)" where
  "getMeasurementMetrics timing = scan_denominators timing 0 denominators"

text \<open>
  The magnitude order of the labels that the claims about unit selection refer to: hours
  above minutes above seconds above milliseconds above microseconds above nanoseconds,
  with the empty label of the fallback result below all of them.
\<close>

definition unit_rank :: "string \<Rightarrow> nat" where
  "unit_rank u =
     (if u = ''h'' then 6 else if u = ''m'' then 5 else if u = ''s'' then 4
      else if u = ''ms'' then 3 else if u = [CHR 0xC2, CHR 0xB5, CHR ''s''] then 2
      else if u = ''ns'' then 1 else 0)"

section \<open>The command-line tokenizer\<close>

text \<open>
  A Go \<open>string\<close> is a sequence of bytes (\<open>char\<close>), a \<open>rune\<close> a code point
  (\<open>nat\<close>).  \<open>for i, ch := range cmd\<close> visits the string rune by rune: a byte below
  \<open>0x80\<close> is a rune of its own, anything else goes through the runtime's
  \<open>decoderune\<close>, which returns the rune and its width in bytes, and
  \<open>U+FFFD\<close> with width 1 for a malformed sequence.
\<close>

unbundle bit_operations_syntax

definition runeError :: nat where
  "runeError = 0xFFFD"

definition continuation :: "nat \<Rightarrow> bool" where
  "continuation b = (0x80 \<le> b \<and> b \<le> 0xBF)"

definition decoderune :: "string \<Rightarrow> nat \<times> nat" where
  "decoderune s =
     (let b = (\<lambda>k. (of_char (s ! k) :: nat)) in
      if 0xC0 \<le> b 0 \<and> b 0 < 0xE0 then
        (if length s > 1 \<and> continuation (b 1) then
           (let r = push_bit 6 (b 0 AND 0x1F) OR (b 1 AND 0x3F)
            in if 0x7F < r then (r, 2) else (runeError, 1))
         else (runeError, 1))
      else if 0xE0 \<le> b 0 \<and> b 0 < 0xF0 then
        (if length s > 2 \<and> continuation (b 1) \<and> continuation (b 2) then
           (let r = push_bit 12 (b 0 AND 0x0F) OR push_bit 6 (b 1 AND 0x3F) OR (b 2 AND 0x3F)
            in if 0x7FF < r \<and> \<not> (0xD800 \<le> r \<and> r \<le> 0xDFFF) then (r, 3)
               else (runeError, 1))
         else (runeError, 1))
      else if 0xF0 \<le> b 0 \<and> b 0 < 0xF8 then
        (if length s > 3 \<and> continuation (b 1) \<and> continuation (b 2) \<and> continuation (b 3) then
           (let r = push_bit 18 (b 0 AND 0x07) OR push_bit 12 (b 1 AND 0x3F)
                      OR push_bit 6 (b 2 AND 0x3F) OR (b 3 AND 0x3F)
            in if 0xFFFF < r \<and> r \<le> 0x10FFFF then (r, 4) else (runeError, 1))
         else (runeError, 1))
      else (runeError, 1))"

text \<open>The rune at byte offset \<open>i\<close> of a string, with its width (\<open>i < len(cmd)\<close>).\<close>

definition rune_at :: "string \<Rightarrow> nat \<Rightarrow> nat \<times> nat" where
  "rune_at cmd i =
     (if (of_char (cmd ! i) :: nat) < 0x80 then (of_char (cmd ! i), 1)
      else decoderune (drop i cmd))"

text \<open>\<open>strings.Builder.WriteRune\<close>: the UTF-8 encoding of the rune is appended.\<close>

definition WriteRune :: "string \<Rightarrow> nat \<Rightarrow> string" where
  "WriteRune b r =
     (if r \<le> 0x7F then b @ [char_of r]
      else if r \<le> 0x7FF then
        b @ [char_of (0xC0 OR drop_bit 6 r), char_of (0x80 OR (r AND 0x3F))]
      else if r > 0x10FFFF \<or> (0xD800 \<le> r \<and> r \<le> 0xDFFF) then
        b @ [char_of (0xEF :: nat), char_of (0xBF :: nat), char_of (0xBD :: nat)]
      else if r \<le> 0xFFFF then
        b @ [char_of (0xE0 OR drop_bit 12 r), char_of (0x80 OR (drop_bit 6 r AND 0x3F)),
             char_of (0x80 OR (r AND 0x3F))]
      else
        b @ [char_of (0xF0 OR drop_bit 18 r), char_of (0x80 OR (drop_bit 12 r AND 0x3F)),
             char_of (0x80 OR (drop_bit 6 r AND 0x3F)), char_of (0x80 OR (r AND 0x3F))])"

text \<open>
  The loop of \<open>list2Cmdline\<close>.  Its state is the byte offset \<open>i\<close>, the parts
  appended so far, the open quote rune (\<open>0\<close> for none) and the builder's content.  The
  quote runes are \<open>0x22\<close> and \<open>0x27\<close>, the backslash is \<open>0x5C\<close>, the separators
  are the space \<open>0x20\<close> and the tab \<open>0x09\<close>.
\<close>

function list2Cmdline_loop ::
  "string \<Rightarrow> nat \<Rightarrow> string list \<Rightarrow> nat \<Rightarrow> string \<Rightarrow> string list \<times> string" where
  "list2Cmdline_loop cmd i cmdParts inQuote b =
     (if i < length cmd then
        (let ch = fst (rune_at cmd i); next = i + snd (rune_at cmd i) in
         if (ch = 0x22 \<or> ch = 0x27) \<and> (i = 0 \<or> cmd ! (i - 1) \<noteq> CHR 0x5C) then
           (if inQuote = 0 then list2Cmdline_loop cmd next cmdParts ch b
            else if inQuote = ch then list2Cmdline_loop cmd next cmdParts 0 b
            else list2Cmdline_loop cmd next cmdParts inQuote (WriteRune b ch))
         else if (ch = 0x20 \<or> ch = 0x09) \<and> inQuote = 0 then
           list2Cmdline_loop cmd next (cmdParts @ [b]) inQuote []
         else list2Cmdline_loop cmd next cmdParts inQuote (WriteRune b ch))
      else (cmdParts, b))"
  by pat_completeness auto
termination
proof -
  have width: "0 < snd (rune_at cmd i)" for cmd i
    by (simp add: rune_at_def decoderune_def Let_def)
  have decreases: "i < length cmd \<Longrightarrow> length cmd - (i + snd (rune_at cmd i)) < length cmd - i"
    for cmd i
    using width [of cmd i] by simp
  show ?thesis
    by (relation "measure (\<lambda>(cmd, i, cmdParts, inQuote, b). length cmd - i)")
      (use decreases in auto)
qed

declare list2Cmdline_loop.simps [simp del]

definition list2Cmdline :: "string \<Rightarrow> string list" where
  "list2Cmdline cmd =
     (case list2Cmdline_loop cmd 0 [] 0 [] of (cmdParts, b) \<Rightarrow> cmdParts @ [b])"

section \<open>Errors and results\<close>

text \<open>
  An \<open>exec_error\<close> is an error value that comes out of \<open>os/exec\<close> or the Windows
  API: \<open>ExitError c\<close> is the \<open>*exec.ExitError\<close> that \<open>Wait\<close> returns for a child
  that ran and exited with the non-zero status \<open>c\<close>, \<open>SysError n\<close> is any other failure,
  with its code.  The program's own error is the one of
  \<open>errors.New("empty command string")\<close>.  A Go call that returns a value and an
  \<open>error\<close> either returns the value (\<open>Ok\<close>), returns the error (\<open>Err\<close>), or
  panics.
\<close>

datatype exec_error = ExitError nat | SysError nat

datatype error = EmptyCommandString | ExecError exec_error

datatype 'a go_result = is_Ok: Ok (the_Ok: 'a) | Err error | Panic panic

section \<open>The process timer\<close>

text \<open>
  What the operating system does for one process launch is the environment of the timer;
  a \<open>launch\<close> records the outcome of every call that \<open>windowsTimer.Run\<close> makes, in
  the order it makes them.  The child either runs to completion with an exit status or
  \<open>Wait\<close> fails for another reason; a launch is one in which \<open>Wait\<close> returns.
\<close>

datatype wait_status = Exited nat | WaitFailed exec_error

record thread_entry =
  ownerProcessID :: "32 word"
  threadID :: "32 word"

record launch =
  cmd_Start :: "exec_error option"
  process_Pid :: "32 word"
  createJobObject :: "exec_error option"
  openProcess :: "exec_error option"
  assignProcessToJobObject :: "exec_error option"
  createToolhelp32Snapshot :: "exec_error + thread_entry list"
  openThread :: "32 word \<Rightarrow> exec_error option"
  child_exit :: wait_status
  time_Since :: int64
  queryInformationJobObject :: "exec_error + int64 \<times> int64"

text \<open>
  \<open>exec.Cmd.Wait\<close> returns \<open>nil\<close> only for a child that exits with status zero; for a
  child that ran and exited with another status it returns an \<open>*exec.ExitError\<close>.
  \<open>exec.Cmd.Run\<close> is \<open>Start\<close> followed by \<open>Wait\<close>.
\<close>

fun cmd_Wait :: "wait_status \<Rightarrow> exec_error option" where
  "cmd_Wait (Exited c) = (if c = 0 then None else Some (ExitError c))"
| "cmd_Wait (WaitFailed e) = Some e"

definition cmd_Run :: "launch \<Rightarrow> exec_error option" where
  "cmd_Run l = (case cmd_Start l of Some e \<Rightarrow> Some e | None \<Rightarrow> cmd_Wait (child_exit l))"

text \<open>
  \<open>getMainThreadOfPID\<close>: the snapshot's thread entries are visited with
  \<open>Thread32First\<close> and \<open>Thread32Next\<close>, which fail with \<open>ERROR_NO_MORE_FILES\<close>
  (code 18) when no entry is left; the first entry owned by the process is opened.
\<close>

definition ERROR_NO_MORE_FILES :: exec_error where
  "ERROR_NO_MORE_FILES = SysError 18"

fun thread_loop :: "launch \<Rightarrow> 32 word \<Rightarrow> thread_entry list \<Rightarrow> exec_error option" where
  "thread_loop l pid [] = Some ERROR_NO_MORE_FILES"
| "thread_loop l pid (threadEntry # rest) =
     (if ownerProcessID threadEntry = pid then openThread l (threadID threadEntry)
      else thread_loop l pid rest)"

definition getMainThreadOfPID :: "launch \<Rightarrow> 32 word \<Rightarrow> exec_error option" where
  "getMainThreadOfPID l pid =
     (case createToolhelp32Snapshot l of
        Inl err \<Rightarrow> Some err
      | Inr entries \<Rightarrow> thread_loop l pid entries)"

record windowsTimer =
  userTime :: int64
  kernelTime :: int64
  realTime :: int64

definition HundredNSTicks :: int64 where
  "HundredNSTicks = 100"

text \<open>
  \<open>windowsTimer.Run\<close> returns the error, if any, and the timer as it leaves it.  The
  deferred clean-ups (\<open>terminateJobObject\<close>, \<open>CloseHandle\<close>) change neither, and the
  result of \<open>ResumeThread\<close> is not looked at.  The field \<open>jobObject\<close> of the struct
  is never read or written and is left out of the record.
\<close>

definition Run :: "windowsTimer \<Rightarrow> launch \<Rightarrow> exec_error option \<times> windowsTimer" where
  "Run w l =
     (case cmd_Start l of Some err \<Rightarrow> (Some err, w) | None \<Rightarrow>
      case createJobObject l of Some err \<Rightarrow> (Some err, w) | None \<Rightarrow>
      case openProcess l of Some err \<Rightarrow> (Some err, w) | None \<Rightarrow>
      case assignProcessToJobObject l of Some err \<Rightarrow> (Some err, w) | None \<Rightarrow>
      case getMainThreadOfPID l (process_Pid l) of Some err \<Rightarrow> (Some err, w) | None \<Rightarrow>
      case cmd_Wait (child_exit l) of Some err \<Rightarrow> (Some err, w) | None \<Rightarrow>
      (let w1 = w\<lparr>realTime := time_Since l\<rparr> in
       case queryInformationJobObject l of
         Inl err \<Rightarrow> (Some err, w1)
       | Inr (totalUser, totalKernel) \<Rightarrow>
           (None, w1\<lparr>userTime := totalUser, kernelTime := totalKernel\<rparr>)))"

definition GetUserTime :: "windowsTimer \<Rightarrow> int64" where
  "GetUserTime w = userTime w * HundredNSTicks"

definition GetKernelTime :: "windowsTimer \<Rightarrow> int64" where
  "GetKernelTime w = kernelTime w * HundredNSTicks"

definition GetRealTime :: "windowsTimer \<Rightarrow> int64" where
  "GetRealTime w = realTime w"

definition Reset :: "windowsTimer \<Rightarrow> windowsTimer" where
  "Reset w = w\<lparr>userTime := 0, kernelTime := 0, realTime := 0\<rparr>"

section \<open>Statistics\<close>

text \<open>
  \<open>stdev\<close>: the squared deviations are summed in \<open>int64\<close>, the sum is divided by
  \<open>len(values) - 1\<close> in \<open>float64\<close>, and the square root is taken.
\<close>

definition stdev :: "int64 list \<Rightarrow> int64 \<Rightarrow> float64" where
  "stdev vals mean_value =
     (let numerator = foldl (\<lambda>numerator v. let delta = v - mean_value
                                             in numerator + delta * delta) 0 vals
      in fsqrt (fdiv (float64_of_int64 numerator) (float64_of_int (int (length vals) - 1))))"

section \<open>The benchmark runner\<close>

text \<open>
  The flags \<open>runs\<close> and \<open>warmup\<close> are global variables of the program; they are the
  \<open>config\<close> of a run.  \<open>benchmarkResult\<close> is the struct of the source; its fields
  \<open>stdev\<close>, \<open>min\<close> and \<open>max\<close> are \<open>stdev_f\<close>, \<open>min_f\<close> and \<open>max_f\<close> here.
  A \<open>progress_line\<close> holds the numbers that one call of \<open>printProgressLine\<close> shows:
  the running estimate with its denominator and unit, the progress fraction and the ETA.
  \<open>bench_state\<close> holds the timer and the local variables of \<open>runBenchmark\<close> that the
  measuring loop updates, with the progress lines printed so far.
\<close>

record config =
  runs :: int64
  warmup :: int64

record benchmarkResult =
  cmd :: string
  mean :: int64
  stdev_f :: float64
  min_f :: int64
  max_f :: int64
  denominator :: float64
  unit :: string
  meanUserTime :: int64
  userDenominator :: float64
  userUnit :: string
  meanKernelTime :: int64
  kernelDenominator :: float64
  kernelUnit :: string

record progress_line =
  estimate :: int64
  estimate_denominator :: float64
  estimate_unit :: string
  progress :: float64
  eta :: int64

record bench_state =
  timer :: windowsTimer
  currentEstimate :: int64
  currentDenominator :: float64
  currentUnitEstimate :: string
  totalUserTime :: int64
  totalKernelTime :: int64
  elapsedRuns :: "int64 list"
  printed :: "progress_line list"

text \<open>
  The warm-up loop \<open>for i := int64(0); i < warmup; i++\<close>: launch number \<open>i\<close> is run
  with \<open>exec.Cmd.Run\<close>, and the first error ends the benchmark.
\<close>

function warmup_loop :: "config \<Rightarrow> (nat \<Rightarrow> launch) \<Rightarrow> int64 \<Rightarrow> exec_error option" where
  "warmup_loop cfg env i =
     (if slt i (warmup cfg) then
        (case cmd_Run (env (nat (sint i))) of
           Some err \<Rightarrow> Some err
         | None \<Rightarrow> warmup_loop cfg env (i + 1))
      else None)"
  by pat_completeness auto
termination
proof -
  have step: "slt i n \<Longrightarrow> nat (sint n - sint (i + 1)) < nat (sint n - sint i)" for i n :: int64
  proof -
    assume "slt i n"
    then have lt: "sint i < sint n" by (simp add: slt_def)
    have "sint (i + 1) = signed_take_bit 63 (sint i + 1)"
      by (simp add: sint_word_ariths)
    also have "\<dots> = sint i + 1"
      using lt sint_ge [of i] sint_lt [of n] by (intro signed_take_bit_int_eq_self) simp_all
    finally show ?thesis using lt by simp
  qed
  show ?thesis
    by (relation "measure (\<lambda>(cfg, env, i). nat (sint (warmup cfg) - sint i))")
      (use step in auto)
qed

declare warmup_loop.simps [simp del]

text \<open>
  The measuring loop \<open>for i := int64(0); i < runs; i++\<close>, with its body as a function
  of its own: the timer is reset and run, the first error ends the benchmark, otherwise
  the totals and \<open>elapsedRuns[i]\<close> are updated, the running estimate becomes
  \<open>(currentEstimate*i + elapsedRuns[i]) / (i + 1)\<close>, and a progress line is printed with
  the ETA \<open>currentEstimate * (runs - i)\<close>.
\<close>

definition measure_iteration ::
  "config \<Rightarrow> launch \<Rightarrow> int64 \<Rightarrow> bench_state \<Rightarrow> unit go_result \<times> bench_state" where
  "measure_iteration cfg l i s =
     (case Run (Reset (timer s)) l of
        (Some err, w) \<Rightarrow> (Err (ExecError err), s\<lparr>timer := w\<rparr>)
      | (None, w) \<Rightarrow>
         (let s1 = s\<lparr>timer := w,
                     totalUserTime := totalUserTime s + GetUserTime w,
                     totalKernelTime := totalKernelTime s + GetKernelTime w,
                     elapsedRuns := (elapsedRuns s)[nat (sint i) := GetRealTime w]\<rparr>
          in case go_div (currentEstimate s1 * i + elapsedRuns s1 ! nat (sint i)) (i + 1) of
               Inl p \<Rightarrow> (Panic p, s1)
             | Inr est \<Rightarrow>
                (case getMeasurementMetrics est of
                   Inl p \<Rightarrow> (Panic p, s1\<lparr>currentEstimate := est\<rparr>)
                 | Inr (den, u) \<Rightarrow>
                    (let etaEstimate = est * (runs cfg - i);
                         line = \<lparr>estimate = est, estimate_denominator = den,
                                 estimate_unit = u,
                                 progress = fdiv (float64_of_int64 (i + 1))
                                              (float64_of_int64 (runs cfg)),
                                 eta = etaEstimate\<rparr>
                     in (Ok (),
                         s1\<lparr>currentEstimate := est, currentDenominator := den,
                            currentUnitEstimate := u,
                            printed := printed s1 @ [line]\<rparr>)))))"

function measure_loop ::
  "config \<Rightarrow> (nat \<Rightarrow> launch) \<Rightarrow> int64 \<Rightarrow> bench_state \<Rightarrow> unit go_result \<times> bench_state" where
  "measure_loop cfg env i s =
     (if slt i (runs cfg) then
        (case measure_iteration cfg (env (nat (sint i))) i s of
           (Ok _, s1) \<Rightarrow> measure_loop cfg env (i + 1) s1
         | (Err e, s1) \<Rightarrow> (Err e, s1)
         | (Panic p, s1) \<Rightarrow> (Panic p, s1))
      else (Ok (), s))"
  by pat_completeness auto
termination
proof -
  have step: "slt i n \<Longrightarrow> nat (sint n - sint (i + 1)) < nat (sint n - sint i)" for i n :: int64
  proof -
    assume "slt i n"
    then have lt: "sint i < sint n" by (simp add: slt_def)
    have "sint (i + 1) = signed_take_bit 63 (sint i + 1)"
      by (simp add: sint_word_ariths)
    also have "\<dots> = sint i + 1"
      using lt sint_ge [of i] sint_lt [of n] by (intro signed_take_bit_int_eq_self) simp_all
    finally show ?thesis using lt by simp
  qed
  show ?thesis
    by (relation "measure (\<lambda>(cfg, env, i, s). nat (sint (runs cfg) - sint i))")
      (use step in auto)
qed

declare measure_loop.simps [simp del]

text \<open>
  One step of the loop that computes the minimum, the maximum and the total of
  \<open>elapsedRuns\<close>, which starts from \<open>math.MaxInt64\<close>, \<open>math.MinInt64\<close> and \<open>0\<close>.
\<close>

definition MaxInt64 :: int64 where
  "MaxInt64 = 0x7FFFFFFFFFFFFFFF"

definition MinInt64 :: int64 where
  "MinInt64 = 0x8000000000000000"

definition timing_step :: "int64 \<times> int64 \<times> int64 \<Rightarrow> int64 \<Rightarrow> int64 \<times> int64 \<times> int64" where
  "timing_step acc elapsed =
     (case acc of (minElapsed, maxElapsed, totalElapsed) \<Rightarrow>
        (if slt elapsed minElapsed then elapsed else minElapsed,
         if slt maxElapsed elapsed then elapsed else maxElapsed,
         totalElapsed + elapsed))"

text \<open>
  \<open>runBenchmark\<close>.  The environment gives, for the tokenized command, the outcome of
  the \<open>k\<close>-th warm-up launch (\<open>warm_env\<close>) and of the \<open>k\<close>-th measured launch
  (\<open>timer_env\<close>).  The result is what the function returns together with the progress
  lines it has printed.  \<open>make([]int64, runs)\<close> panics for a negative length; the
  limits of the allocator for a huge length are outside the model.
\<close>

definition runBenchmark ::
  "config \<Rightarrow> (string list \<Rightarrow> nat \<Rightarrow> launch) \<Rightarrow> (string list \<Rightarrow> nat \<Rightarrow> launch) \<Rightarrow>
   windowsTimer \<Rightarrow> string \<Rightarrow> benchmarkResult go_result \<times> progress_line list" where
  "runBenchmark cfg warm_env timer_env processTimer cmdToBenchmark =
     (let cmdParts = list2Cmdline cmdToBenchmark in
      if length cmdParts = 0 then (Err EmptyCommandString, [])
      else
        case warmup_loop cfg (warm_env cmdParts) 0 of
          Some err \<Rightarrow> (Err (ExecError err), [])
        | None \<Rightarrow>
           if slt (runs cfg) 0 then (Panic MakeSliceLenOutOfRange, [])
           else
             case measure_loop cfg (timer_env cmdParts) 0
                    \<lparr>timer = processTimer, currentEstimate = 0, currentDenominator = Finite 0,
                     currentUnitEstimate = [], totalUserTime = 0, totalKernelTime = 0,
                     elapsedRuns = replicate (nat (sint (runs cfg))) 0, printed = []\<rparr> of
               (Err e, s) \<Rightarrow> (Err e, printed s)
             | (Panic p, s) \<Rightarrow> (Panic p, printed s)
             | (Ok _, s) \<Rightarrow>
                (case foldl timing_step (MaxInt64, MinInt64, 0) (elapsedRuns s) of
                   (minElapsed, maxElapsed, totalElapsed) \<Rightarrow>
                 case go_div totalElapsed (runs cfg) of Inl p \<Rightarrow> (Panic p, printed s)
                 | Inr meanElapsed \<Rightarrow>
                 case go_div (totalUserTime s) (runs cfg) of Inl p \<Rightarrow> (Panic p, printed s)
                 | Inr meanUser \<Rightarrow>
                 case go_div (totalKernelTime s) (runs cfg) of Inl p \<Rightarrow> (Panic p, printed s)
                 | Inr meanKernel \<Rightarrow>
                 case getMeasurementMetrics meanElapsed of Inl p \<Rightarrow> (Panic p, printed s)
                 | Inr (den, u) \<Rightarrow>
                 case getMeasurementMetrics meanUser of Inl p \<Rightarrow> (Panic p, printed s)
                 | Inr (userDen, userU) \<Rightarrow>
                 case getMeasurementMetrics meanKernel of Inl p \<Rightarrow> (Panic p, printed s)
                 | Inr (kernelDen, kernelU) \<Rightarrow>
                   (Ok \<lparr>cmd = cmdToBenchmark, mean = meanElapsed,
                        stdev_f = stdev (elapsedRuns s) meanElapsed,
                        min_f = minElapsed, max_f = maxElapsed,
                        denominator = den, unit = u,
                        meanUserTime = meanUser, userDenominator = userDen, userUnit = userU,
                        meanKernelTime = meanKernel, kernelDenominator = kernelDen,
                        kernelUnit = kernelU\<rparr>,
                    printed s)))"

text \<open>\<open>runSetup\<close> runs the tokenized set-up command once with \<open>exec.Cmd.Run\<close>.\<close>

definition runSetup :: "(string list \<Rightarrow> launch) \<Rightarrow> string \<Rightarrow> error option" where
  "runSetup env cmdToSetup =
     (let cmdParts = list2Cmdline cmdToSetup in
      if length cmdParts = 0 then Some EmptyCommandString
      else map_option ExecError (cmd_Run (env cmdParts)))"

section \<open>The comparison summary\<close>




section \<open>Environments and the quantities the claims speak of\<close>

text \<open>
  A launch in which every call of the operating system succeeds: the process starts with
  pid 7, the snapshot lists a thread of another process and then the main thread of this
  one, the child exits with status \<open>c\<close> after \<open>t\<close> nanoseconds, and the job reports
  3 and 2 ticks of user and kernel time.
\<close>

definition completed_launch :: "nat \<Rightarrow> int64 \<Rightarrow> launch" where
  "completed_launch c t =
     \<lparr>cmd_Start = None, process_Pid = 7, createJobObject = None, openProcess = None,
      assignProcessToJobObject = None,
      createToolhelp32Snapshot = Inr [\<lparr>ownerProcessID = 4, threadID = 1\<rparr>,
                                      \<lparr>ownerProcessID = 7, threadID = 2\<rparr>],
      openThread = (\<lambda>_. None), child_exit = Exited c, time_Since = t,
      queryInformationJobObject = Inr (3, 2)\<rparr>"

definition timer0 :: windowsTimer where
  "timer0 = \<lparr>userTime = 0, kernelTime = 0, realTime = 0\<rparr>"

text \<open>
  \<open>launched l\<close>: everything up to the resumption of the child succeeds.
  \<open>completes l\<close>: moreover the child exits with status zero and the accounting query
  succeeds.
\<close>

definition launched :: "launch \<Rightarrow> bool" where
  "launched l \<longleftrightarrow>
     cmd_Start l = None \<and> createJobObject l = None \<and> openProcess l = None \<and>
     assignProcessToJobObject l = None \<and> getMainThreadOfPID l (process_Pid l) = None"

definition completes :: "launch \<Rightarrow> bool" where
  "completes l \<longleftrightarrow>
     launched l \<and> child_exit l = Exited 0 \<and> (\<exists>u k. queryInformationJobObject l = Inr (u, k))"

text \<open>
  Environments for concrete runs: \<open>sample_env ts\<close> lets launch \<open>j\<close> complete after
  \<open>ts ! j\<close> nanoseconds; \<open>failing_env k c\<close> lets the launches before the \<open>k\<close>-th
  complete and the others exit with status \<open>c\<close>.
\<close>

definition sample_env :: "int64 list \<Rightarrow> string list \<Rightarrow> nat \<Rightarrow> launch" where
  "sample_env ts cmdParts j = completed_launch 0 (if j < length ts then ts ! j else 0)"


text \<open>
  The real-time samples of a run in which all \<open>runs\<close> measured launches complete:
  \<open>elapsedRuns\<close> as it stands after the measuring loop.
\<close>

definition elapsed_samples :: "config \<Rightarrow> (nat \<Rightarrow> launch) \<Rightarrow> int64 list" where
  "elapsed_samples cfg env = map (\<lambda>j. time_Since (env j)) [0..<nat (sint (runs cfg))]"

text \<open>
  The running-mean update in the words of the specification,
  \<open>newMean = (previousMean * previousCount + newSample) / (previousCount + 1)\<close> in
  \<open>int64\<close> arithmetic, and the successive means it yields when it is folded over a
  sample sequence.
\<close>

definition updateRunningMean :: "int64 \<Rightarrow> int64 \<Rightarrow> int64 \<Rightarrow> int64" where
  "updateRunningMean previousMean previousCount newSample =
     quo64 (previousMean * previousCount + newSample) (previousCount + 1)"

fun running_means :: "int64 \<Rightarrow> int64 \<Rightarrow> int64 list \<Rightarrow> int64 list" where
  "running_means previousMean previousCount [] = []"
| "running_means previousMean previousCount (newSample # rest) =
     updateRunningMean previousMean previousCount newSample #
     running_means (updateRunningMean previousMean previousCount newSample)
       (previousCount + 1) rest"




section \<open>Integer arithmetic of the model\<close>

lemma sdiv_abs_le: "0 < (b::int) \<Longrightarrow> \<bar>a sdiv b\<bar> \<le> \<bar>a\<bar>"
  by (simp add: signed_divide_int_def abs_mult div_int_pos_iff int_div_le_self)

lemma sint_range64: "- (2 ^ 63) \<le> sint (a::int64) \<and> sint a < 2 ^ 63"
  using sint_ge [of a] sint_lt [of a] by simp

lemma sint_word_of_int64:
  "- (2 ^ 63) \<le> k \<Longrightarrow> k < 2 ^ 63 \<Longrightarrow> sint (word_of_int k :: int64) = k"
  by (simp add: sint_sbintrunc' signed_take_bit_int_eq_self)

lemma sdiv_pos_iff: "0 < (b::int) \<Longrightarrow> 0 < a sdiv b \<longleftrightarrow> b \<le> a"
proof (cases "0 \<le> a")
  case True
  assume "0 < b"
  with True show ?thesis
    using nonneg1_imp_zdiv_pos_iff [of a b]
    by (cases "a = 0") (simp_all add: signed_divide_int_def)
next
  case False
  assume "0 < b"
  with False show ?thesis
    using pos_imp_zdiv_neg_iff by (auto simp add: signed_divide_int_def)
qed

lemma sdiv_upper: "0 < (b::int) \<Longrightarrow> a < m \<Longrightarrow> 0 < m \<Longrightarrow> a sdiv b < m"
  using sdiv_abs_le [of b a] sdiv_pos_iff [of b a] by linarith

lemma sint_quo64: "0 < sint b \<Longrightarrow> sint (quo64 a b) = sint a sdiv sint b"
proof -
  assume b: "0 < sint b"
  have "\<bar>sint a sdiv sint b\<bar> \<le> \<bar>sint a\<bar>" using b by (rule sdiv_abs_le)
  moreover have "sint a sdiv sint b < 2 ^ 63"
    using b sint_range64 [of a] by (intro sdiv_upper) simp_all
  ultimately show ?thesis
    unfolding quo64_def using sint_range64 [of a]
    by (intro sint_word_of_int64) linarith+
qed

lemma slt_quo64: "0 < sint d \<Longrightarrow> slt 0 (quo64 t d) \<longleftrightarrow> sint d \<le> sint t"
  by (simp add: slt_def sint_quo64 sdiv_pos_iff)

lemma sint_succ: "slt i n \<Longrightarrow> sint (i + 1) = sint i + 1" for i n :: int64
proof -
  assume "slt i n"
  then have lt: "sint i < sint n" by (simp add: slt_def)
  have "sint (i + 1) = signed_take_bit 63 (sint i + 1)"
    by (simp add: sint_word_ariths)
  also have "\<dots> = sint i + 1"
    using lt sint_ge [of i] sint_lt [of n] by (intro signed_take_bit_int_eq_self) simp_all
  finally show ?thesis .
qed

lemma succ_nonzero: "0 \<le> sint i \<Longrightarrow> slt i n \<Longrightarrow> i + 1 \<noteq> 0" for i n :: int64
proof
  assume "0 \<le> sint i" "slt i n" "i + 1 = 0"
  then have "sint (i + 1) = 0" by simp
  with sint_succ [OF \<open>slt i n\<close>] \<open>0 \<le> sint i\<close> show False by simp
qed

lemma sint_succ_exact: "sint k + 1 < 2 ^ 63 \<Longrightarrow> sint (k + 1) = sint k + 1" for k :: int64
proof -
  assume r: "sint k + 1 < 2 ^ 63"
  have "sint (k + 1) = signed_take_bit 63 (sint k + 1)" by (simp add: sint_word_ariths)
  with r sint_ge [of k] show ?thesis by (simp add: signed_take_bit_int_eq_self)
qed

lemma sint_mult_add_exact:
  "- (2 ^ 63) \<le> sint a * sint b + sint c \<Longrightarrow> sint a * sint b + sint c < 2 ^ 63 \<Longrightarrow>
   sint (a * b + c) = sint a * sint b + sint c" for a b c :: int64
proof -
  assume r: "- (2 ^ 63) \<le> sint a * sint b + sint c" "sint a * sint b + sint c < 2 ^ 63"
  have "a * b + c = word_of_int (sint a * sint b + sint c)" by simp
  then have "sint (a * b + c) = signed_take_bit 63 (sint a * sint b + sint c)"
    by (simp only: sint_sbintrunc') simp
  with r show ?thesis by (simp add: signed_take_bit_int_eq_self)
qed

lemma quo64_one: "quo64 x 1 = x"
proof -
  have "sint x sdiv 1 = sint x" by (simp add: signed_divide_int_def mult_sgn_abs)
  then show ?thesis by (simp add: quo64_def)
qed

lemma sum_list_word_of_int:
  "(sum_list xs :: int64) = word_of_int (sum_list (map sint xs))"
  by (induction xs) simp_all

lemma sint_sum_list:
  "sint (sum_list xs :: int64) = signed_take_bit 63 (sum_list (map sint xs))"
  by (subst sum_list_word_of_int) (simp add: sint_sbintrunc')

lemma sint_sum_list_exact:
  "- (2 ^ 63) \<le> sum_list (map sint xs) \<Longrightarrow> sum_list (map sint xs) < 2 ^ 63 \<Longrightarrow>
   sint (sum_list xs :: int64) = sum_list (map sint xs)"
  by (simp add: sint_sum_list signed_take_bit_int_eq_self)

lemma sum_list_bounds:
  "\<forall>x\<in>set xs. a \<le> x \<and> x \<le> b \<Longrightarrow>
   a * int (length xs) \<le> sum_list xs \<and> sum_list xs \<le> b * int (length xs)" for a b :: int
  by (induction xs) (auto simp: algebra_simps)

lemma div_lower: "0 < n \<Longrightarrow> c * n \<le> T \<Longrightarrow> c \<le> T div n" for c n T :: int
  using zdiv_mono1 [of "c * n" T n] by simp

lemma div_upper: "0 < n \<Longrightarrow> T \<le> c * n \<Longrightarrow> T div n \<le> c" for c n T :: int
  using zdiv_mono1 [of T "c * n" n] by simp

lemma sdiv_between:
  "0 < n \<Longrightarrow> a * n \<le> S \<Longrightarrow> S \<le> b * n \<Longrightarrow> a \<le> S sdiv n \<and> S sdiv n \<le> b" for a b n S :: int
proof -
  assume n: "0 < n" and lo: "a * n \<le> S" and hi: "S \<le> b * n"
  show ?thesis
  proof (cases "0 \<le> S")
    case True
    then have "S sdiv n = S div n" using n by (cases "S = 0") (simp_all add: signed_divide_int_def)
    with div_lower [OF n lo] div_upper [OF n hi] show ?thesis by simp
  next
    case False
    then have "S sdiv n = - ((- S) div n)" using n by (simp add: signed_divide_int_def)
    moreover have "- b \<le> (- S) div n" using hi by (intro div_lower [OF n]) simp
    moreover have "(- S) div n \<le> - a" using lo by (intro div_upper [OF n]) simp
    ultimately show ?thesis by simp
  qed
qed

lemma sdiv_remainder: "0 < n \<Longrightarrow> \<bar>T - n * (T sdiv n)\<bar> \<le> n - 1" for n T :: int
proof -
  assume n: "0 < n"
  have "T - n * (T sdiv n) = T smod n"
    by (rule minus_mult_sdiv_eq_smod)
  moreover have "\<bar>T smod n\<bar> = \<bar>T\<bar> mod n"
    using n by (cases "T = 0") (simp_all add: signed_modulo_int_def abs_mult)
  moreover have "\<bar>T\<bar> mod n < n" using n by simp
  ultimately show ?thesis by linarith
qed





section \<open>Unit selection\<close>

lemma scan_denominators_first:
  "\<forall>d\<in>set ds. d \<noteq> 0 \<Longrightarrow>
   (\<exists>k<length ds. slt 0 (quo64 t (ds ! k)) \<and> (\<forall>j<k. \<not> slt 0 (quo64 t (ds ! j))) \<and>
      scan_denominators t i ds = Inr (float64_of_int64 (ds ! k), units ! (i + k))) \<or>
   ((\<forall>j<length ds. \<not> slt 0 (quo64 t (ds ! j))) \<and>
      scan_denominators t i ds = Inr (Finite 0, []))"
proof (induction ds arbitrary: i)
  case Nil
  then show ?case by simp
next
  case (Cons d ds)
  then have d: "d \<noteq> 0" and ds: "\<forall>d\<in>set ds. d \<noteq> 0" by simp_all
  show ?case
  proof (cases "slt 0 (quo64 t d)")
    case True
    with d have "scan_denominators t i (d # ds) = Inr (float64_of_int64 d, units ! i)"
      by (simp add: go_div_def)
    with True show ?thesis by (intro disjI1 exI [of _ 0]) simp
  next
    case False
    with d have step: "scan_denominators t i (d # ds) = scan_denominators t (Suc i) ds"
      by (simp add: go_div_def)
    from Cons.IH [OF ds, of "Suc i"] show ?thesis
    proof
      assume "\<exists>k<length ds. slt 0 (quo64 t (ds ! k)) \<and> (\<forall>j<k. \<not> slt 0 (quo64 t (ds ! j))) \<and>
        scan_denominators t (Suc i) ds = Inr (float64_of_int64 (ds ! k), units ! (Suc i + k))"
      then obtain k where k: "k < length ds" "slt 0 (quo64 t (ds ! k))"
        "\<forall>j<k. \<not> slt 0 (quo64 t (ds ! j))"
        "scan_denominators t (Suc i) ds = Inr (float64_of_int64 (ds ! k), units ! (Suc i + k))"
        by blast
      have "\<forall>j<Suc k. \<not> slt 0 (quo64 t ((d # ds) ! j))"
        using False k(3) by (auto simp: less_Suc_eq_0_disj)
      with k step show ?thesis
        by (intro disjI1 exI [of _ "Suc k"]) simp
    next
      assume "(\<forall>j<length ds. \<not> slt 0 (quo64 t (ds ! j))) \<and>
        scan_denominators t (Suc i) ds = Inr (Finite 0, [])"
      with False step show ?thesis
        by (intro disjI2) (auto simp: less_Suc_eq_0_disj)
    qed
  qed
qed

lemma denominators_nonzero: "\<forall>d\<in>set denominators. d \<noteq> 0"
  by (simp add: denominators_def)

lemma denominators_positive: "k < length denominators \<Longrightarrow> 0 < sint (denominators ! k)"
  by (auto simp: denominators_def less_Suc_eq numeral_eq_Suc nth_Cons')

text \<open>
  Claim C6, as the code has it.  \<open>getMeasurementMetrics\<close> returns for every \<open>int64\<close>
  input and never divides by zero.  For a positive input the result is the first tier,
  scanning from hours down to nanoseconds, whose truncated quotient is positive.  The
  fallback \<open>(0, "")\<close> is returned exactly for the inputs that are zero or negative, not
  for zero alone.
\<close>

theorem getMeasurementMetrics_tiers:
  "\<exists>r. getMeasurementMetrics t = Inr r \<and>
     (r = (Finite 0, []) \<longleftrightarrow> sint t \<le> 0) \<and>
     (0 < sint t \<longrightarrow>
        (\<exists>k<length denominators.
           r = (float64_of_int64 (denominators ! k), units ! k) \<and>
           slt 0 (quo64 t (denominators ! k)) \<and>
           (\<forall>j<k. \<not> slt 0 (quo64 t (denominators ! j)))))"
proof -
  have last: "sint t \<le> 0 \<longleftrightarrow> \<not> slt 0 (quo64 t (denominators ! 5))"
    by (auto simp add: denominators_def slt_quo64)
  from scan_denominators_first [OF denominators_nonzero, of t 0]
  show ?thesis
  proof
    assume "\<exists>k<length denominators. slt 0 (quo64 t (denominators ! k)) \<and>
      (\<forall>j<k. \<not> slt 0 (quo64 t (denominators ! j))) \<and>
      scan_denominators t 0 denominators =
        Inr (float64_of_int64 (denominators ! k), units ! (0 + k))"
    then obtain k where k: "k < length denominators" "slt 0 (quo64 t (denominators ! k))"
      "\<forall>j<k. \<not> slt 0 (quo64 t (denominators ! j))"
      "getMeasurementMetrics t = Inr (float64_of_int64 (denominators ! k), units ! k)"
      by (auto simp: getMeasurementMetrics_def)
    from k(1,2) have pos: "0 < sint t"
      using denominators_positive [OF k(1)] by (simp add: slt_quo64)
    have "float64_of_int64 (denominators ! k) \<noteq> Finite 0"
      using denominators_positive [OF k(1)]
      by (simp add: float64_of_int64_def del: of_int_sint)
    with k pos show ?thesis by auto
  next
    assume none: "(\<forall>j<length denominators. \<not> slt 0 (quo64 t (denominators ! j))) \<and>
      scan_denominators t 0 denominators = Inr (Finite 0, [])"
    have "5 < length denominators" by (simp add: denominators_def)
    with none have "\<not> slt 0 (quo64 t (denominators ! 5))" by blast
    with last have "sint t \<le> 0" by simp
    with none show ?thesis by (simp add: getMeasurementMetrics_def)
  qed
qed

text \<open>At 1500 ns the scan stops at the microsecond tier.\<close>

theorem getMeasurementMetrics_tiers_witness:
  "getMeasurementMetrics 1500 = Inr (Finite 1000, [CHR 0xC2, CHR 0xB5, CHR ''s'']) \<and>
   0 < sint (1500 :: int64) \<and>
   (\<exists>k<length denominators. slt 0 (quo64 1500 (denominators ! k)) \<and>
      (\<forall>j<k. \<not> slt 0 (quo64 1500 (denominators ! j))))"
proof -
  have e: "getMeasurementMetrics 1500 = Inr (Finite 1000, [CHR 0xC2, CHR 0xB5, CHR ''s''])"
    by (simp add: getMeasurementMetrics_def denominators_def units_def go_div_def
        slt_quo64 float64_of_int64_def)
  have p: "0 < sint (1500 :: int64)" by simp
  from getMeasurementMetrics_tiers [of 1500] e p show ?thesis by auto
qed

text \<open>
  The input \<open>-1\<close> has a quotient of zero at the five upper tiers and of \<open>-1\<close> at the
  nanosecond tier, so it gets the fallback result although it is not zero.
\<close>

theorem sentinel_only_at_zero_counterexample:
  "\<not> (getMeasurementMetrics (- 1) = Inr (Finite 0, []) \<longrightarrow> (- 1 :: int64) = 0)"
  by (simp add: getMeasurementMetrics_def denominators_def units_def go_div_def
        slt_quo64)

text \<open>The selection written as a chain of thresholds on the signed input.\<close>

lemma getMeasurementMetrics_eq:
  "getMeasurementMetrics t = Inr
     (if 3600000000000 \<le> sint t then (Finite 3600000000000, ''h'')
      else if 60000000000 \<le> sint t then (Finite 60000000000, ''m'')
      else if 1000000000 \<le> sint t then (Finite 1000000000, ''s'')
      else if 1000000 \<le> sint t then (Finite 1000000, ''ms'')
      else if 1000 \<le> sint t then (Finite 1000, [CHR 0xC2, CHR 0xB5, CHR ''s''])
      else if 1 \<le> sint t then (Finite 1, ''ns'')
      else (Finite 0, []))"
  by (simp add: getMeasurementMetrics_def denominators_def units_def go_div_def
        slt_quo64 float64_of_int64_def)

text \<open>
  Claim C9.  Unit selection is monotonic: when \<open>a \<le> b\<close> as signed durations, the unit
  selected for \<open>b\<close> is of no smaller magnitude than the unit selected for \<open>a\<close>.
\<close>

theorem getMeasurementMetrics_monotonic:
  "sint a \<le> sint b \<Longrightarrow> getMeasurementMetrics a = Inr (da, ua) \<Longrightarrow>
   getMeasurementMetrics b = Inr (db, ub) \<Longrightarrow> unit_rank ua \<le> unit_rank ub"
  by (auto simp: getMeasurementMetrics_eq unit_rank_def split: if_splits)

text \<open>
  1500 ns selects microseconds and 2 ms selects milliseconds.
\<close>

theorem getMeasurementMetrics_monotonic_witness:
  "sint (1500 :: int64) \<le> sint (2000000 :: int64) \<and>
   getMeasurementMetrics 1500 = Inr (Finite 1000, [CHR 0xC2, CHR 0xB5, CHR ''s'']) \<and>
   getMeasurementMetrics 2000000 = Inr (Finite 1000000, ''ms'') \<and>
   unit_rank [CHR 0xC2, CHR 0xB5, CHR ''s''] \<le> unit_rank ''ms''"
proof -
  have a: "getMeasurementMetrics 1500 = Inr (Finite 1000, [CHR 0xC2, CHR 0xB5, CHR ''s''])"
    by (simp add: getMeasurementMetrics_eq)
  have b: "getMeasurementMetrics 2000000 = Inr (Finite 1000000, ''ms'')"
    by (simp add: getMeasurementMetrics_eq)
  have le: "sint (1500 :: int64) \<le> sint (2000000 :: int64)" by simp
  from getMeasurementMetrics_monotonic [OF le a b] a b le show ?thesis by simp
qed

lemma getMeasurementMetrics_total: "\<exists>d u. getMeasurementMetrics t = Inr (d, u)"
  by (simp add: getMeasurementMetrics_eq)

section \<open>The tokenizer never returns an empty list\<close>

lemma list2Cmdline_nonempty: "list2Cmdline c \<noteq> []"
  by (simp add: list2Cmdline_def split: prod.splits)

section \<open>When the timer reports an error\<close>

lemma Run_eq_None_iff:
  "fst (Run w l) = None \<longleftrightarrow>
     launched l \<and> child_exit l = Exited 0 \<and> (\<exists>u k. queryInformationJobObject l = Inr (u, k))"
proof (cases "child_exit l")
  case (Exited c)
  then show ?thesis
    by (auto simp: Run_def launched_def Let_def split: option.splits sum.splits prod.splits)
next
  case (WaitFailed e)
  then show ?thesis
    by (auto simp: Run_def launched_def Let_def split: option.splits sum.splits prod.splits)
qed


lemma Run_success:
  "fst (Run w l) = None \<Longrightarrow>
   \<exists>u k. queryInformationJobObject l = Inr (u, k) \<and>
         snd (Run w l) = w\<lparr>realTime := time_Since l, userTime := u, kernelTime := k\<rparr>"
  by (auto simp: Run_def Let_def split: option.splits sum.splits prod.splits)



lemma completes_completed_launch: "completes (completed_launch 0 t)"
  by (simp add: completes_def launched_def completed_launch_def getMainThreadOfPID_def)

lemma cmd_Run_completed_launch: "cmd_Run (completed_launch 0 t) = None"
  by (simp add: cmd_Run_def completed_launch_def)

section \<open>The loops of the runner\<close>

lemma warmup_none: "\<not> slt 0 (warmup cfg) \<Longrightarrow> warmup_loop cfg env 0 = None"
  by (subst warmup_loop.simps) simp

lemma warmup_loop_completes:
  "0 \<le> sint i \<Longrightarrow> \<forall>j<nat (sint (warmup cfg)). cmd_Run (env j) = None \<Longrightarrow>
   warmup_loop cfg env i = None"
proof (induction cfg env i rule: warmup_loop.induct)
  case (1 cfg env i)
  show ?case
  proof (cases "slt i (warmup cfg)")
    case False
    then show ?thesis by (subst warmup_loop.simps) simp
  next
    case True
    then have "nat (sint i) < nat (sint (warmup cfg))" using "1.prems"(1) by (simp add: slt_def)
    with "1.prems"(2) have run: "cmd_Run (env (nat (sint i))) = None" by simp
    have "0 \<le> sint (i + 1)" using sint_succ [OF True] "1.prems"(1) by simp
    with "1.IH" [OF True run] "1.prems"(2) have "warmup_loop cfg env (i + 1) = None" by blast
    then show ?thesis using True run by (subst warmup_loop.simps) simp
  qed
qed

lemma measure_done: "\<not> slt i (runs cfg) \<Longrightarrow> measure_loop cfg env i s = (Ok (), s)"
  by (subst measure_loop.simps) simp

lemma measure_loop_unroll:
  "slt i (runs cfg) \<Longrightarrow> measure_loop cfg env i s =
     (case measure_iteration cfg (env (nat (sint i))) i s of
        (Ok x, s1) \<Rightarrow> measure_loop cfg env (i + 1) s1
      | (Err e, s1) \<Rightarrow> (Err e, s1)
      | (Panic p, s1) \<Rightarrow> (Panic p, s1))"
  by (subst measure_loop.simps) simp


lemma measure_iteration_Err:
  "fst (measure_iteration cfg l i s) = Err e \<Longrightarrow> e \<noteq> EmptyCommandString"
  by (auto simp: measure_iteration_def Let_def split: prod.splits option.splits sum.splits)

lemma measure_iteration_OkD:
  assumes "measure_iteration cfg l i s = (Ok x, s1)"
  shows "fst (Run (Reset (timer s)) l) = None"
    and "elapsedRuns s1 = (elapsedRuns s)[nat (sint i) := time_Since l]"
    and "i + 1 \<noteq> 0 \<Longrightarrow> currentEstimate s1 =
           updateRunningMean (currentEstimate s) i ((elapsedRuns s)[nat (sint i) := time_Since l] ! nat (sint i))"
    and "\<exists>line. printed s1 = printed s @ [line] \<and> estimate line = currentEstimate s1 \<and>
           eta line = currentEstimate s1 * (runs cfg - i)"
  using assms
  by (auto simp: measure_iteration_def Let_def go_div_def updateRunningMean_def Run_def
        GetRealTime_def Reset_def
      split: prod.splits option.splits sum.splits if_splits)

lemma measure_iteration_completes:
  assumes "completes l" "0 \<le> sint i" "slt i (runs cfg)"
  shows "\<exists>s1. measure_iteration cfg l i s = (Ok (), s1)"
proof -
  have "fst (Run (Reset (timer s)) l) = None"
    using assms(1) by (simp add: Run_eq_None_iff completes_def)
  then obtain w where run: "Run (Reset (timer s)) l = (None, w)" by (cases "Run (Reset (timer s)) l") simp
  have nz: "i + 1 \<noteq> 0" using assms(2,3) by (rule succ_nonzero)
  obtain d u where "getMeasurementMetrics (quo64 (currentEstimate s * i +
      (elapsedRuns s)[nat (sint i) := GetRealTime w] ! nat (sint i)) (i + 1)) = Inr (d, u)"
    using getMeasurementMetrics_total by blast
  then show ?thesis using run nz
    by (simp add: measure_iteration_def Let_def go_div_def)
qed

lemma measure_loop_Ok_step:
  "slt i (runs cfg) \<Longrightarrow> measure_loop cfg env i s = (Ok x, s') \<Longrightarrow>
   \<exists>s1. measure_iteration cfg (env (nat (sint i))) i s = (Ok (), s1) \<and>
        measure_loop cfg env (i + 1) s1 = (Ok x, s')"
  by (subst (asm) measure_loop.simps) (auto split: prod.splits go_result.splits)

lemma measure_loop_elapsed:
  "measure_loop cfg env i s = (Ok x, s') \<Longrightarrow> 0 \<le> sint i \<Longrightarrow> sint i \<le> sint (runs cfg) \<Longrightarrow>
   length (elapsedRuns s) = nat (sint (runs cfg)) \<Longrightarrow>
   elapsedRuns s' = take (nat (sint i)) (elapsedRuns s) @
     map (\<lambda>j. time_Since (env j)) [nat (sint i)..<nat (sint (runs cfg))]"
proof (induction cfg env i s rule: measure_loop.induct)
  case (1 cfg env i s)
  let ?n = "nat (sint (runs cfg))" and ?k = "nat (sint i)"
  show ?case
  proof (cases "slt i (runs cfg)")
    case False
    with "1.prems" have "sint i = sint (runs cfg)" by (simp add: slt_def)
    moreover from False "1.prems"(1) have "s' = s" by (simp add: measure_done)
    ultimately show ?thesis using "1.prems"(4) by simp
  next
    case True
    from measure_loop_Ok_step [OF True "1.prems"(1)] obtain s1
      where it: "measure_iteration cfg (env ?k) i s = (Ok (), s1)"
        and rest: "measure_loop cfg env (i + 1) s1 = (Ok x, s')" by blast
    have succ: "sint (i + 1) = sint i + 1" using True by (rule sint_succ)
    have lt: "?k < ?n" using True "1.prems"(2) by (simp add: slt_def)
    have e1: "elapsedRuns s1 = (elapsedRuns s)[?k := time_Since (env ?k)]"
      using it by (rule measure_iteration_OkD(2))
    have "elapsedRuns s' = take (nat (sint (i + 1))) (elapsedRuns s1) @
        map (\<lambda>j. time_Since (env j)) [nat (sint (i + 1))..<?n]"
      using True it [symmetric] rest "1.prems" succ e1
      by (intro "1.IH" [of "Ok ()" s1 "()"]) (simp_all add: slt_def)
    moreover have "nat (sint (i + 1)) = Suc ?k" using succ "1.prems"(2) by simp
    moreover have "take (Suc ?k) (elapsedRuns s1) = take ?k (elapsedRuns s) @ [time_Since (env ?k)]"
      using lt "1.prems"(4) by (simp add: e1 take_Suc_conv_app_nth)
    moreover have "[?k..<?n] = ?k # [Suc ?k..<?n]" using lt by (simp add: upt_conv_Cons)
    ultimately show ?thesis by simp
  qed
qed

lemma measure_loop_printed:
  "measure_loop cfg env i s = (Ok x, s') \<Longrightarrow> 0 \<le> sint i \<Longrightarrow> sint i \<le> sint (runs cfg) \<Longrightarrow>
   length (elapsedRuns s) = nat (sint (runs cfg)) \<Longrightarrow>
   map estimate (printed s') = map estimate (printed s) @
     running_means (currentEstimate s) i
       (map (\<lambda>j. time_Since (env j)) [nat (sint i)..<nat (sint (runs cfg))])"
proof (induction cfg env i s rule: measure_loop.induct)
  case (1 cfg env i s)
  let ?n = "nat (sint (runs cfg))" and ?k = "nat (sint i)"
  show ?case
  proof (cases "slt i (runs cfg)")
    case False
    with "1.prems" have "sint i = sint (runs cfg)" by (simp add: slt_def)
    moreover from False "1.prems"(1) have "s' = s" by (simp add: measure_done)
    ultimately show ?thesis by simp
  next
    case True
    from measure_loop_Ok_step [OF True "1.prems"(1)] obtain s1
      where it: "measure_iteration cfg (env ?k) i s = (Ok (), s1)"
        and rest: "measure_loop cfg env (i + 1) s1 = (Ok x, s')" by blast
    have succ: "sint (i + 1) = sint i + 1" using True by (rule sint_succ)
    have lt: "?k < ?n" using True "1.prems"(2) by (simp add: slt_def)
    have nz: "i + 1 \<noteq> 0" using "1.prems"(2) True by (rule succ_nonzero)
    have e1: "elapsedRuns s1 = (elapsedRuns s)[?k := time_Since (env ?k)]"
      using it by (rule measure_iteration_OkD(2))
    have m1: "currentEstimate s1 = updateRunningMean (currentEstimate s) i (time_Since (env ?k))"
      using measure_iteration_OkD(3) [OF it nz] lt "1.prems"(4) by simp
    from measure_iteration_OkD(4) [OF it] obtain line
      where line: "printed s1 = printed s @ [line]" "estimate line = currentEstimate s1"
      by blast
    have "map estimate (printed s') = map estimate (printed s1) @
        running_means (currentEstimate s1) (i + 1)
          (map (\<lambda>j. time_Since (env j)) [nat (sint (i + 1))..<?n])"
      using True it [symmetric] rest "1.prems" succ e1
      by (intro "1.IH" [of "Ok ()" s1 "()"]) (simp_all add: slt_def)
    moreover have "nat (sint (i + 1)) = Suc ?k" using succ "1.prems"(2) by simp
    moreover have "[?k..<?n] = ?k # [Suc ?k..<?n]" using lt by (simp add: upt_conv_Cons)
    ultimately show ?thesis using line m1 by simp
  qed
qed

lemma measure_loop_eta:
  "measure_loop cfg env i s = (Ok x, s') \<Longrightarrow> 0 \<le> sint i \<Longrightarrow> sint i \<le> sint (runs cfg) \<Longrightarrow>
   length (printed s) = nat (sint i) \<Longrightarrow>
   (\<forall>j<length (printed s). eta (printed s ! j) = estimate (printed s ! j) * (runs cfg - of_nat j)) \<Longrightarrow>
   length (printed s') = nat (sint (runs cfg)) \<and>
   (\<forall>j<length (printed s'). eta (printed s' ! j) = estimate (printed s' ! j) * (runs cfg - of_nat j))"
proof (induction cfg env i s rule: measure_loop.induct)
  case (1 cfg env i s)
  let ?n = "nat (sint (runs cfg))" and ?k = "nat (sint i)"
  show ?case
  proof (cases "slt i (runs cfg)")
    case False
    with "1.prems" have "sint i = sint (runs cfg)" by (simp add: slt_def)
    moreover from False "1.prems"(1) have "s' = s" by (simp add: measure_done)
    ultimately show ?thesis using "1.prems"(4,5) by simp
  next
    case True
    from measure_loop_Ok_step [OF True "1.prems"(1)] obtain s1
      where it: "measure_iteration cfg (env ?k) i s = (Ok (), s1)"
        and rest: "measure_loop cfg env (i + 1) s1 = (Ok x, s')" by blast
    have succ: "sint (i + 1) = sint i + 1" using True by (rule sint_succ)
    from measure_iteration_OkD(4) [OF it] obtain line
      where line: "printed s1 = printed s @ [line]" "estimate line = currentEstimate s1"
        "eta line = currentEstimate s1 * (runs cfg - i)"
      by blast
    have i: "of_nat ?k = i" using "1.prems"(2) by simp
    have len1: "length (printed s1) = nat (sint (i + 1))"
      using line(1) "1.prems"(2,4) succ by simp
    have inv1: "\<forall>j<length (printed s1). eta (printed s1 ! j) =
        estimate (printed s1 ! j) * (runs cfg - of_nat j)"
      using line "1.prems"(4,5) i by (auto simp: nth_append less_Suc_eq)
    show ?thesis
      using True it [symmetric] rest "1.prems"(2,3) succ len1 inv1
      by (intro "1.IH" [of "Ok ()" s1 "()"]) (simp_all add: slt_def)
  qed
qed

lemma measure_loop_completes:
  "0 \<le> sint i \<Longrightarrow>
   \<forall>j<nat (sint (runs cfg)). completes (env j) \<Longrightarrow>
   \<exists>s'. measure_loop cfg env i s = (Ok (), s')"
proof (induction cfg env i s rule: measure_loop.induct)
  case (1 cfg env i s)
  show ?case
  proof (cases "slt i (runs cfg)")
    case False
    then show ?thesis by (simp add: measure_done)
  next
    case True
    then have "nat (sint i) < nat (sint (runs cfg))" using "1.prems"(1) by (simp add: slt_def)
    with "1.prems"(2) have "completes (env (nat (sint i)))" by simp
    from measure_iteration_completes [OF this "1.prems"(1) True]
    obtain s1 where it: "measure_iteration cfg (env (nat (sint i))) i s = (Ok (), s1)" by blast
    have "0 \<le> sint (i + 1)" using sint_succ [OF True] "1.prems"(1) by simp
    with "1.IH" [OF True it [symmetric] refl] "1.prems"(2)
    obtain s' where "measure_loop cfg env (i + 1) s1 = (Ok (), s')" by blast
    then show ?thesis using True it by (simp add: measure_loop_unroll)
  qed
qed


lemma measure_loop_Err:
  "fst (measure_loop cfg env i s) = Err e \<Longrightarrow> e \<noteq> EmptyCommandString"
proof (induction cfg env i s rule: measure_loop.induct)
  case (1 cfg env i s)
  show ?case
  proof (cases "slt i (runs cfg)")
    case False
    with "1.prems" show ?thesis by (simp add: measure_done)
  next
    case True
    obtain x s1 where it: "measure_iteration cfg (env (nat (sint i))) i s = (x, s1)"
      by (cases "measure_iteration cfg (env (nat (sint i))) i s") auto
    show ?thesis
    proof (cases x)
      case (Ok u)
      with "1.prems" True it have "fst (measure_loop cfg env (i + 1) s1) = Err e"
        by (simp add: measure_loop_unroll)
      with "1.IH" [OF True it [symmetric] Ok] show ?thesis by simp
    next
      case (Err e')
      with "1.prems" True it have "e' = e" by (simp add: measure_loop_unroll)
      with measure_iteration_Err [of cfg "env (nat (sint i))" i s e] it Err show ?thesis by simp
    next
      case (Panic p)
      with "1.prems" True it show ?thesis by (simp add: measure_loop_unroll)
    qed
  qed
qed

section \<open>What \<open>runBenchmark\<close> returns\<close>

lemma foldl_timing_step:
  "foldl timing_step (mn, mx, t) xs =
     (foldl (\<lambda>m x. if slt x m then x else m) mn xs,
      foldl (\<lambda>m x. if slt m x then x else m) mx xs,
      t + sum_list xs)"
  by (induction xs arbitrary: mn mx t) (simp_all add: timing_step_def add.assoc)

lemma foldl_min_le:
  "sint (foldl (\<lambda>m x. if slt x m then x else m) m0 xs) \<le> sint m0 \<and>
   (\<forall>x\<in>set xs. sint (foldl (\<lambda>m x. if slt x m then x else m) m0 xs) \<le> sint x)"
proof (induction xs arbitrary: m0)
  case Nil
  show ?case by simp
next
  case (Cons y ys)
  from Cons.IH [of "if slt y m0 then y else m0"] show ?case
    by (auto simp: slt_def split: if_splits)
qed

lemma foldl_max_ge:
  "sint m0 \<le> sint (foldl (\<lambda>m x. if slt m x then x else m) m0 xs) \<and>
   (\<forall>x\<in>set xs. sint x \<le> sint (foldl (\<lambda>m x. if slt m x then x else m) m0 xs))"
proof (induction xs arbitrary: m0)
  case Nil
  show ?case by simp
next
  case (Cons y ys)
  from Cons.IH [of "if slt m0 y then y else m0"] show ?case
    by (auto simp: slt_def split: if_splits)
qed

lemma runBenchmark_OkD:
  assumes "runBenchmark cfg warm_env timer_env tm c = (Ok r, out)"
  shows "\<exists>s'. measure_loop cfg (timer_env (list2Cmdline c)) 0
            \<lparr>timer = tm, currentEstimate = 0, currentDenominator = Finite 0,
             currentUnitEstimate = [], totalUserTime = 0, totalKernelTime = 0,
             elapsedRuns = replicate (nat (sint (runs cfg))) 0, printed = []\<rparr> = (Ok (), s') \<and>
          0 \<le> sint (runs cfg) \<and> runs cfg \<noteq> 0 \<and> out = printed s' \<and>
          min_f r = fst (foldl timing_step (MaxInt64, MinInt64, 0) (elapsedRuns s')) \<and>
          max_f r = fst (snd (foldl timing_step (MaxInt64, MinInt64, 0) (elapsedRuns s'))) \<and>
          mean r = quo64 (snd (snd (foldl timing_step (MaxInt64, MinInt64, 0) (elapsedRuns s'))))
                     (runs cfg) \<and>
          stdev_f r = stdev (elapsedRuns s') (mean r)"
  using assms
  by (auto simp: runBenchmark_def Let_def go_div_def slt_def
      split: if_splits option.splits prod.splits go_result.splits sum.splits)


lemma elapsed_samples_sample_env:
  "nat (sint (runs cfg)) = length ts \<Longrightarrow> elapsed_samples cfg (sample_env ts cmdParts) = ts"
  by (auto simp: elapsed_samples_def sample_env_def completed_launch_def intro!: nth_equalityI)

lemma runBenchmark_Ok_samples:
  assumes ok: "runBenchmark cfg warm_env timer_env tm c = (Ok r, out)"
  defines "xs \<equiv> elapsed_samples cfg (timer_env (list2Cmdline c))"
  shows "0 < sint (runs cfg)"
    and "length xs = nat (sint (runs cfg))"
    and "min_f r = foldl (\<lambda>m x. if slt x m then x else m) MaxInt64 xs"
    and "max_f r = foldl (\<lambda>m x. if slt m x then x else m) MinInt64 xs"
    and "mean r = quo64 (sum_list xs) (runs cfg)"
    and "stdev_f r = stdev xs (mean r)"
    and "map estimate out = running_means 0 0 xs"
    and "length out = nat (sint (runs cfg))"
    and "\<forall>j<length out. eta (out ! j) = estimate (out ! j) * (runs cfg - of_nat j)"
proof -
  let ?s0 = "\<lparr>timer = tm, currentEstimate = 0, currentDenominator = Finite 0,
             currentUnitEstimate = [], totalUserTime = 0, totalKernelTime = 0,
             elapsedRuns = replicate (nat (sint (runs cfg))) 0, printed = []\<rparr>"
  let ?env = "timer_env (list2Cmdline c)"
  from runBenchmark_OkD [OF ok] obtain s' where
    loop: "measure_loop cfg ?env 0 ?s0 = (Ok (), s')"
    and nonneg: "0 \<le> sint (runs cfg)" and nz: "runs cfg \<noteq> 0" and out: "out = printed s'"
    and mn: "min_f r = fst (foldl timing_step (MaxInt64, MinInt64, 0) (elapsedRuns s'))"
    and mx: "max_f r = fst (snd (foldl timing_step (MaxInt64, MinInt64, 0) (elapsedRuns s')))"
    and me: "mean r = quo64 (snd (snd (foldl timing_step (MaxInt64, MinInt64, 0) (elapsedRuns s'))))
                     (runs cfg)"
    and sd: "stdev_f r = stdev (elapsedRuns s') (mean r)"
    by blast
  have "sint (runs cfg) \<noteq> 0" using nz by (simp add: signed_eq_0_iff)
  with nonneg show "0 < sint (runs cfg)" by simp
  show "length xs = nat (sint (runs cfg))" by (simp add: xs_def elapsed_samples_def)
  have el: "elapsedRuns s' = xs"
    using measure_loop_elapsed [OF loop] nonneg by (simp add: xs_def elapsed_samples_def)
  show "min_f r = foldl (\<lambda>m x. if slt x m then x else m) MaxInt64 xs"
    using mn by (simp add: el foldl_timing_step)
  show "max_f r = foldl (\<lambda>m x. if slt m x then x else m) MinInt64 xs"
    using mx by (simp add: el foldl_timing_step)
  show "mean r = quo64 (sum_list xs) (runs cfg)"
    using me by (simp add: el foldl_timing_step)
  show "stdev_f r = stdev xs (mean r)" using sd by (simp add: el)
  show "map estimate out = running_means 0 0 xs"
    using measure_loop_printed [OF loop] nonneg
    by (simp add: out xs_def elapsed_samples_def)
  from measure_loop_eta [OF loop] nonneg
  show "length out = nat (sint (runs cfg))"
    and "\<forall>j<length out. eta (out ! j) = estimate (out ! j) * (runs cfg - of_nat j)"
    by (simp_all add: out)
qed

lemma runBenchmark_completes:
  assumes warm: "\<forall>j<nat (sint (warmup cfg)). cmd_Run (warm_env (list2Cmdline c) j) = None"
    and meas: "\<forall>j<nat (sint (runs cfg)). completes (timer_env (list2Cmdline c) j)"
    and pos: "0 < sint (runs cfg)"
  shows "is_Ok (fst (runBenchmark cfg warm_env timer_env tm c))"
proof -
  let ?s0 = "\<lparr>timer = tm, currentEstimate = 0, currentDenominator = Finite 0,
             currentUnitEstimate = [], totalUserTime = 0, totalKernelTime = 0,
             elapsedRuns = replicate (nat (sint (runs cfg))) 0, printed = []\<rparr>"
  have w: "warmup_loop cfg (warm_env (list2Cmdline c)) 0 = None"
    using warm by (intro warmup_loop_completes) simp_all
  obtain s' where loop: "measure_loop cfg (timer_env (list2Cmdline c)) 0 ?s0 = (Ok (), s')"
    using measure_loop_completes [of 0 cfg "timer_env (list2Cmdline c)" ?s0] meas by auto
  have nz: "runs cfg \<noteq> 0" using pos by auto
  obtain mn mx tot where f: "foldl timing_step (MaxInt64, MinInt64, 0) (elapsedRuns s') = (mn, mx, tot)"
    by (cases "foldl timing_step (MaxInt64, MinInt64, 0) (elapsedRuns s')") auto
  obtain d1 u1 where g1: "getMeasurementMetrics (quo64 tot (runs cfg)) = Inr (d1, u1)"
    using getMeasurementMetrics_total by blast
  obtain d2 u2 where g2: "getMeasurementMetrics (quo64 (totalUserTime s') (runs cfg)) = Inr (d2, u2)"
    using getMeasurementMetrics_total by blast
  obtain d3 u3 where g3: "getMeasurementMetrics (quo64 (totalKernelTime s') (runs cfg)) = Inr (d3, u3)"
    using getMeasurementMetrics_total by blast
  show ?thesis
    using w loop nz pos f g1 g2 g3
    by (simp add: runBenchmark_def Let_def list2Cmdline_nonempty slt_def go_div_def)
qed

lemma runBenchmark_sample_env:
  assumes "nat (sint (runs cfg)) = length ts" "ts \<noteq> []"
  shows "runBenchmark cfg (sample_env ws) (sample_env ts) tm c =
     (Ok (the_Ok (fst (runBenchmark cfg (sample_env ws) (sample_env ts) tm c))),
      snd (runBenchmark cfg (sample_env ws) (sample_env ts) tm c))"
proof -
  have "0 < sint (runs cfg)" using assms by (cases "sint (runs cfg) \<le> 0") auto
  then have "is_Ok (fst (runBenchmark cfg (sample_env ws) (sample_env ts) tm c))"
    by (intro runBenchmark_completes)
      (simp_all add: sample_env_def completes_completed_launch cmd_Run_completed_launch)
  then show ?thesis
    by (cases "runBenchmark cfg (sample_env ws) (sample_env ts) tm c")
      (auto simp: is_Ok_def)
qed


lemma runBenchmark_Err:
  assumes "fst (runBenchmark cfg warm_env timer_env tm c) = Err e"
  shows "e \<noteq> EmptyCommandString"
proof (cases "measure_loop cfg (timer_env (list2Cmdline c)) 0
    \<lparr>timer = tm, currentEstimate = 0, currentDenominator = Finite 0,
     currentUnitEstimate = [], totalUserTime = 0, totalKernelTime = 0,
     elapsedRuns = replicate (nat (sint (runs cfg))) 0, printed = []\<rparr>")
  case (Pair x s')
  have "e' \<noteq> EmptyCommandString" if "x = Err e'" for e'
  proof (rule measure_loop_Err)
    show "fst (measure_loop cfg (timer_env (list2Cmdline c)) 0
      \<lparr>timer = tm, currentEstimate = 0, currentDenominator = Finite 0,
       currentUnitEstimate = [], totalUserTime = 0, totalKernelTime = 0,
       elapsedRuns = replicate (nat (sint (runs cfg))) 0, printed = []\<rparr>) = Err e'"
      using Pair that by simp
  qed
  then show ?thesis using assms Pair
    by (auto simp: runBenchmark_def Let_def list2Cmdline_nonempty
        split: option.splits if_splits prod.splits go_result.splits sum.splits)
qed

section \<open>Errors of a launch\<close>




section \<open>Minimum, mean and maximum\<close>

text \<open>
  Claim C2, as the code has it.  When \<open>runBenchmark\<close> returns a result and the exact sum
  of the real-time samples fits in \<open>int64\<close>, so that \<open>totalElapsed\<close> has not wrapped
  around, then \<open>min \<le> mean \<le> max\<close> as signed values, all three computed from the same
  sample array.
\<close>

theorem mean_between_min_and_max:
  assumes ok: "runBenchmark cfg warm_env timer_env tm c = (Ok r, out)"
    and lower: "- (2 ^ 63) \<le> sum_list (map sint (elapsed_samples cfg (timer_env (list2Cmdline c))))"
    and upper: "sum_list (map sint (elapsed_samples cfg (timer_env (list2Cmdline c)))) < 2 ^ 63"
  shows "sint (min_f r) \<le> sint (mean r) \<and> sint (mean r) \<le> sint (max_f r)"
proof -
  let ?xs = "elapsed_samples cfg (timer_env (list2Cmdline c))"
  let ?n = "sint (runs cfg)"
  note facts = runBenchmark_Ok_samples [OF ok]
  have n: "0 < ?n" and len: "int (length ?xs) = ?n" using facts(1,2) by simp_all
  have "\<forall>x\<in>set (map sint ?xs). sint (min_f r) \<le> x \<and> x \<le> sint (max_f r)"
    using foldl_min_le [of MaxInt64 ?xs] foldl_max_ge [of MinInt64 ?xs] facts(3,4) by simp
  from sum_list_bounds [OF this]
  have "sint (min_f r) * ?n \<le> sum_list (map sint ?xs)"
    and "sum_list (map sint ?xs) \<le> sint (max_f r) * ?n"
    using len by simp_all
  with n have "sint (min_f r) \<le> sum_list (map sint ?xs) sdiv ?n \<and>
      sum_list (map sint ?xs) sdiv ?n \<le> sint (max_f r)"
    by (intro sdiv_between)
  moreover have "sint (mean r) = sum_list (map sint ?xs) sdiv ?n"
    using facts(5) n by (simp add: sint_quo64 sint_sum_list_exact [OF lower upper])
  ultimately show ?thesis by simp
qed

text \<open>
  The scenario of the specification: five runs of 10, 20, 30, 40 and 50 ns after three
  warm-up runs give the mean 30 between the minimum and the maximum.
\<close>

theorem mean_between_min_and_max_witness:
  "sint (min_f (the_Ok (fst (runBenchmark \<lparr>runs = 5, warmup = 3\<rparr> (sample_env [])
       (sample_env [10, 20, 30, 40, 50]) timer0 ''cmd''))))
   \<le> sint (mean (the_Ok (fst (runBenchmark \<lparr>runs = 5, warmup = 3\<rparr> (sample_env [])
       (sample_env [10, 20, 30, 40, 50]) timer0 ''cmd'')))) \<and>
   sint (mean (the_Ok (fst (runBenchmark \<lparr>runs = 5, warmup = 3\<rparr> (sample_env [])
       (sample_env [10, 20, 30, 40, 50]) timer0 ''cmd''))))
   \<le> sint (max_f (the_Ok (fst (runBenchmark \<lparr>runs = 5, warmup = 3\<rparr> (sample_env [])
       (sample_env [10, 20, 30, 40, 50]) timer0 ''cmd'')))) \<and>
   mean (the_Ok (fst (runBenchmark \<lparr>runs = 5, warmup = 3\<rparr> (sample_env [])
       (sample_env [10, 20, 30, 40, 50]) timer0 ''cmd''))) = 30"
proof -
  let ?cfg = "\<lparr>runs = 5, warmup = 3\<rparr>"
  let ?ts = "[10, 20, 30, 40, 50] :: int64 list"
  have ok: "runBenchmark ?cfg (sample_env []) (sample_env ?ts) timer0 ''cmd'' =
     (Ok (the_Ok (fst (runBenchmark ?cfg (sample_env []) (sample_env ?ts) timer0 ''cmd''))),
      snd (runBenchmark ?cfg (sample_env []) (sample_env ?ts) timer0 ''cmd''))"
    by (rule runBenchmark_sample_env) simp_all
  have xs: "elapsed_samples ?cfg (sample_env ?ts (list2Cmdline ''cmd'')) = ?ts"
    by (rule elapsed_samples_sample_env) simp
  have lower: "- (2 ^ 63) \<le> sum_list (map sint (elapsed_samples ?cfg (sample_env ?ts (list2Cmdline ''cmd''))))"
    and upper: "sum_list (map sint (elapsed_samples ?cfg (sample_env ?ts (list2Cmdline ''cmd'')))) < 2 ^ 63"
    unfolding xs by simp_all
  have "mean (the_Ok (fst (runBenchmark ?cfg (sample_env []) (sample_env ?ts) timer0 ''cmd''))) = 30"
    using runBenchmark_Ok_samples(5) [OF ok] unfolding xs
    by (simp add: quo64_def signed_divide_int_def)
  with mean_between_min_and_max [OF ok lower upper] show ?thesis by simp
qed

text \<open>
  Two samples of \<open>2^62\<close> ns: their \<open>int64\<close> sum wraps to \<open>-2^63\<close>, the mean
  is \<open>-2^62\<close> and lies below the minimum \<open>2^62\<close>.
\<close>

theorem mean_between_min_and_max_counterexample:
  "is_Ok (fst (runBenchmark \<lparr>runs = 2, warmup = 0\<rparr> (sample_env [])
       (sample_env [4611686018427387904, 4611686018427387904]) timer0 ''cmd'')) \<and>
   \<not> sint (min_f (the_Ok (fst (runBenchmark \<lparr>runs = 2, warmup = 0\<rparr> (sample_env [])
       (sample_env [4611686018427387904, 4611686018427387904]) timer0 ''cmd''))))
     \<le> sint (mean (the_Ok (fst (runBenchmark \<lparr>runs = 2, warmup = 0\<rparr> (sample_env [])
       (sample_env [4611686018427387904, 4611686018427387904]) timer0 ''cmd''))))"
proof -
  let ?cfg = "\<lparr>runs = 2, warmup = 0\<rparr>"
  let ?ts = "[4611686018427387904, 4611686018427387904] :: int64 list"
  let ?rb = "runBenchmark ?cfg (sample_env []) (sample_env ?ts) timer0 ''cmd''"
  have ok: "?rb = (Ok (the_Ok (fst ?rb)), snd ?rb)"
    by (rule runBenchmark_sample_env) simp_all
  have xs: "elapsed_samples ?cfg (sample_env ?ts (list2Cmdline ''cmd'')) = ?ts"
    by (rule elapsed_samples_sample_env) simp
  have "is_Ok (fst ?rb)" by (subst ok) simp
  moreover have "mean (the_Ok (fst ?rb)) = - 4611686018427387904"
    using runBenchmark_Ok_samples(5) [OF ok] unfolding xs
    by (simp add: quo64_def signed_divide_int_def)
  moreover have "min_f (the_Ok (fst ?rb)) = 4611686018427387904"
    using runBenchmark_Ok_samples(3) [OF ok] unfolding xs
    by (simp add: slt_def MaxInt64_def)
  ultimately show ?thesis by simp
qed

section \<open>A single run\<close>





section \<open>No runs\<close>

text \<open>
  Claim C4 against the code.  With \<open>runs = 0\<close> (and no warm-up) nothing is measured,
  the aggregation divides \<open>totalElapsed\<close> by \<open>runs\<close>, and \<open>runBenchmark\<close> panics
  with an integer division by zero: it returns neither an error value nor a result.
\<close>

theorem zero_runs_panics:
  "runBenchmark \<lparr>runs = 0, warmup = 0\<rparr> warm_env timer_env processTimer c =
     (Panic IntegerDivideByZero, [])"
  by (simp add: runBenchmark_def list2Cmdline_nonempty warmup_none measure_done go_div_def
      timing_step_def slt_def Let_def)

section \<open>The ETA of the progress line\<close>

text \<open>
  Claim C5 against the code.  One run of 1000 ns: after this iteration one run is
  completed, so \<open>runningMean * (runCount - completedCount)\<close> is \<open>1000 * (1 - 1) = 0\<close>,
  but the ETA passed to the progress line is \<open>currentEstimate * (runs - i)\<close> with the
  index \<open>i = 0\<close> of the iteration, which is 1000.
\<close>

theorem eta_after_single_run:
  "length (snd (runBenchmark \<lparr>runs = 1, warmup = 0\<rparr> (sample_env [])
       (sample_env [1000]) timer0 ''cmd'')) = 1 \<and>
   estimate (snd (runBenchmark \<lparr>runs = 1, warmup = 0\<rparr> (sample_env [])
       (sample_env [1000]) timer0 ''cmd'') ! 0) = 1000 \<and>
   eta (snd (runBenchmark \<lparr>runs = 1, warmup = 0\<rparr> (sample_env [])
       (sample_env [1000]) timer0 ''cmd'') ! 0) = 1000 \<and>
   (1000 :: int64) * (runs \<lparr>runs = 1, warmup = 0\<rparr> - 1) = 0"
proof -
  let ?cfg = "\<lparr>runs = 1, warmup = 0\<rparr>"
  let ?rb = "runBenchmark ?cfg (sample_env []) (sample_env [1000]) timer0 ''cmd''"
  have ok: "?rb = (Ok (the_Ok (fst ?rb)), snd ?rb)"
    by (rule runBenchmark_sample_env) simp_all
  have xs: "elapsed_samples ?cfg (sample_env [1000] (list2Cmdline ''cmd'')) = [1000]"
    by (rule elapsed_samples_sample_env) simp
  have len: "length (snd ?rb) = 1"
    using runBenchmark_Ok_samples(8) [OF ok] by simp
  have "map estimate (snd ?rb) = [1000]"
    using runBenchmark_Ok_samples(7) [OF ok] unfolding xs
    by (simp add: updateRunningMean_def quo64_one)
  then have est: "estimate (snd ?rb ! 0) = 1000"
    using len by (cases "snd ?rb") simp_all
  have "eta (snd ?rb ! 0) = estimate (snd ?rb ! 0) * (runs ?cfg - of_nat 0)"
    using runBenchmark_Ok_samples(9) [OF ok] len by simp
  with est len show ?thesis by simp
qed

section \<open>The running mean and the final mean\<close>

lemma updateRunningMean_exact:
  fixes m k x :: int64
  assumes m: "\<bar>sint m\<bar> \<le> B" and x: "\<bar>sint x\<bar> \<le> B" and k: "0 \<le> sint k"
    and B: "(sint k + 1) * B < 2 ^ 63" and k1: "sint k + 1 < 2 ^ 63"
  shows "sint (updateRunningMean m k x) = (sint m * sint k + sint x) sdiv (sint k + 1)"
    and "\<bar>sint (updateRunningMean m k x)\<bar> \<le> B"
proof -
  let ?T = "sint m * sint k + sint x" and ?n = "sint k + 1"
  have "\<bar>sint m * sint k\<bar> \<le> B * sint k"
    using m k by (simp add: abs_mult mult_right_mono)
  then have T: "\<bar>?T\<bar> \<le> B * ?n" using x by (simp add: algebra_simps)
  then have range: "- (2 ^ 63) \<le> ?T" "?T < 2 ^ 63" using B by (simp_all add: algebra_simps)
  have n: "sint (k + 1) = ?n" using k1 by (rule sint_succ_exact)
  have "sint (updateRunningMean m k x) = sint (m * k + x) sdiv sint (k + 1)"
    unfolding updateRunningMean_def using n k by (intro sint_quo64) simp
  also have "sint (m * k + x) = ?T" using range by (rule sint_mult_add_exact)
  finally show eq: "sint (updateRunningMean m k x) = ?T sdiv ?n" using n by simp
  have "- B \<le> ?T sdiv ?n \<and> ?T sdiv ?n \<le> B"
    using k T by (intro sdiv_between) (simp_all add: algebra_simps)
  with eq show "\<bar>sint (updateRunningMean m k x)\<bar> \<le> B" by linarith
qed

lemma running_means_error:
  fixes xs :: "int64 list"
  shows "\<forall>x\<in>set xs. \<bar>sint x\<bar> \<le> B \<Longrightarrow> \<bar>sint m\<bar> \<le> B \<Longrightarrow> 0 \<le> sint k \<Longrightarrow>
    (sint k + int (length xs)) * B < 2 ^ 63 \<Longrightarrow> sint k + int (length xs) < 2 ^ 63 \<Longrightarrow>
    2 * \<bar>S0 - sint k * sint m\<bar> \<le> sint k * (sint k - 1) \<Longrightarrow>
    \<bar>sint (last (m # running_means m k xs))\<bar> \<le> B \<and>
    2 * \<bar>S0 + sum_list (map sint xs)
          - (sint k + int (length xs)) * sint (last (m # running_means m k xs))\<bar>
      \<le> (sint k + int (length xs)) * (sint k + int (length xs) - 1)"
proof (induction xs arbitrary: m k S0)
  case Nil
  then show ?case by simp
next
  case (Cons x xs)
  let ?m' = "updateRunningMean m k x"
  let ?T = "sint m * sint k + sint x" and ?n = "sint k + 1"
  have B0: "0 \<le> B" using Cons.prems(2) by linarith
  have x: "\<bar>sint x\<bar> \<le> B" using Cons.prems(1) by simp
  have "(sint k + 1) * B \<le> (sint k + int (length (x # xs))) * B"
    using B0 by (intro mult_right_mono) simp_all
  then have B1: "(sint k + 1) * B < 2 ^ 63" using Cons.prems(4) by linarith
  have k1: "sint k + 1 < 2 ^ 63" using Cons.prems(5) by simp
  have n: "sint (k + 1) = ?n" using k1 by (rule sint_succ_exact)
  have eq: "sint ?m' = ?T sdiv ?n"
    and bound: "\<bar>sint ?m'\<bar> \<le> B"
    using updateRunningMean_exact [OF Cons.prems(2) x Cons.prems(3) B1 k1] by simp_all
  have rem: "\<bar>?T - ?n * sint ?m'\<bar> \<le> sint k"
    using sdiv_remainder [of ?n ?T] Cons.prems(3) eq by simp
  define e0 where "e0 = S0 - sint k * sint m"
  define r where "r = ?T - ?n * sint ?m'"
  define q where "q = sint k * (sint k - 1)"
  define e1 where "e1 = S0 + sint x - ?n * sint ?m'"
  have "e1 = e0 + r"
    by (simp add: e0_def e1_def r_def algebra_simps)
  moreover have "\<bar>r\<bar> \<le> sint k" using rem by (simp add: r_def)
  moreover have "2 * \<bar>e0\<bar> \<le> q" using Cons.prems(6) by (simp add: e0_def q_def)
  ultimately have "2 * \<bar>e1\<bar> \<le> q + 2 * sint k"
    by linarith
  then have "2 * \<bar>S0 + sint x - ?n * sint ?m'\<bar> \<le> sint k * (sint k - 1) + 2 * sint k"
    by (simp add: q_def e1_def)
  also have "\<dots> = ?n * (?n - 1)" by (simp add: algebra_simps)
  finally have err: "2 * \<bar>(S0 + sint x) - sint (k + 1) * sint ?m'\<bar>
      \<le> sint (k + 1) * (sint (k + 1) - 1)"
    using n by simp
  have len: "sint (k + 1) + int (length xs) = sint k + int (length (x # xs))"
    using n by simp
  have IH: "\<bar>sint (last (?m' # running_means ?m' (k + 1) xs))\<bar> \<le> B \<and>
    2 * \<bar>(S0 + sint x) + sum_list (map sint xs)
          - (sint (k + 1) + int (length xs)) * sint (last (?m' # running_means ?m' (k + 1) xs))\<bar>
      \<le> (sint (k + 1) + int (length xs)) * (sint (k + 1) + int (length xs) - 1)"
  proof (intro Cons.IH)
    show "\<forall>x\<in>set xs. \<bar>sint x\<bar> \<le> B" using Cons.prems(1) by simp
    show "\<bar>sint ?m'\<bar> \<le> B" by (fact bound)
    show "0 \<le> sint (k + 1)" using n Cons.prems(3) by simp
    show "(sint (k + 1) + int (length xs)) * B < 2 ^ 63"
      using Cons.prems(4) by (simp only: len)
    show "sint (k + 1) + int (length xs) < 2 ^ 63"
      using Cons.prems(5) by (simp only: len)
    show "2 * \<bar>S0 + sint x - sint (k + 1) * sint ?m'\<bar> \<le> sint (k + 1) * (sint (k + 1) - 1)"
      by (fact err)
  qed
  have "last (m # running_means m k (x # xs)) = last (?m' # running_means ?m' (k + 1) xs)"
    by simp
  with IH show ?case unfolding len by (simp add: add.assoc)
qed

lemma running_means_nonempty: "xs \<noteq> [] \<Longrightarrow> running_means m k xs \<noteq> []"
  by (cases xs) simp_all

text \<open>
  Claim C8, as the code has it.  When \<open>runBenchmark\<close> returns a result, its mean is
  recomputed from the sample array, as the \<open>int64\<close> sum divided by \<open>runs\<close>; the
  estimates of the progress lines are the running-mean update folded over the samples.
  When the samples are bounded in absolute value by \<open>B\<close> and \<open>runs * B\<close> fits in
  \<open>int64\<close>, the last running mean \<open>m\<close> differs from the arithmetic mean \<open>S / n\<close>
  of the \<open>n\<close> samples by at most \<open>(n - 1) / 2\<close>, that is
  \<open>2 * |S - n * m| \<le> n * (n - 1)\<close>: the truncation of every step can add up.
\<close>

theorem running_mean_and_final_mean:
  assumes ok: "runBenchmark cfg warm_env timer_env tm c = (Ok r, out)"
    and bound: "\<forall>x\<in>set (elapsed_samples cfg (timer_env (list2Cmdline c))). \<bar>sint x\<bar> \<le> B"
    and range: "sint (runs cfg) * B < 2 ^ 63"
  shows "mean r = quo64 (sum_list (elapsed_samples cfg (timer_env (list2Cmdline c)))) (runs cfg) \<and>
         map estimate out = running_means 0 0 (elapsed_samples cfg (timer_env (list2Cmdline c))) \<and>
         2 * \<bar>sum_list (map sint (elapsed_samples cfg (timer_env (list2Cmdline c))))
               - sint (runs cfg) * sint (estimate (last out))\<bar>
           \<le> sint (runs cfg) * (sint (runs cfg) - 1)"
proof -
  let ?xs = "elapsed_samples cfg (timer_env (list2Cmdline c))"
  let ?n = "sint (runs cfg)"
  note facts = runBenchmark_Ok_samples [OF ok]
  have n: "0 < ?n" and len: "int (length ?xs) = ?n" using facts(1,2) by simp_all
  then have ne: "?xs \<noteq> []" by auto
  then obtain x where "x \<in> set ?xs" by (cases ?xs) auto
  with bound have B: "0 \<le> B" by fastforce
  have "\<bar>sint (last (0 # running_means 0 0 ?xs))\<bar> \<le> B \<and>
    2 * \<bar>0 + sum_list (map sint ?xs)
          - (sint (0 :: int64) + int (length ?xs)) * sint (last (0 # running_means 0 0 ?xs))\<bar>
      \<le> (sint (0 :: int64) + int (length ?xs)) * (sint (0 :: int64) + int (length ?xs) - 1)"
    using bound B range len sint_lt [of "runs cfg"]
    by (intro running_means_error) simp_all
  moreover have "out \<noteq> []" using facts(8) n by auto
  then have "estimate (last out) = last (map estimate out)" by (simp add: last_map)
  then have "estimate (last out) = last (0 # running_means 0 0 ?xs)"
    using facts(7) running_means_nonempty [OF ne] by simp
  ultimately show ?thesis using facts(5,7) len by simp
qed

text \<open>
  Five runs of 10, 20, 30, 40 and 50 ns: the running means are 10, 15, 20, 25 and 30,
  and the final mean is 30.
\<close>

theorem running_mean_and_final_mean_witness:
  "mean (the_Ok (fst (runBenchmark \<lparr>runs = 5, warmup = 0\<rparr> (sample_env [])
       (sample_env [10, 20, 30, 40, 50]) timer0 ''cmd''))) = 30 \<and>
   map estimate (snd (runBenchmark \<lparr>runs = 5, warmup = 0\<rparr> (sample_env [])
       (sample_env [10, 20, 30, 40, 50]) timer0 ''cmd'')) = [10, 15, 20, 25, 30] \<and>
   2 * \<bar>150 - 5 * sint (estimate (last (snd (runBenchmark \<lparr>runs = 5, warmup = 0\<rparr> (sample_env [])
       (sample_env [10, 20, 30, 40, 50]) timer0 ''cmd''))))\<bar> \<le> (5 :: int) * (5 - 1)"
proof -
  let ?cfg = "\<lparr>runs = 5, warmup = 0\<rparr>"
  let ?ts = "[10, 20, 30, 40, 50] :: int64 list"
  let ?rb = "runBenchmark ?cfg (sample_env []) (sample_env ?ts) timer0 ''cmd''"
  have ok: "?rb = (Ok (the_Ok (fst ?rb)), snd ?rb)"
    by (rule runBenchmark_sample_env) simp_all
  have xs: "elapsed_samples ?cfg (sample_env ?ts (list2Cmdline ''cmd'')) = ?ts"
    by (rule elapsed_samples_sample_env) simp
  have bound: "\<forall>x\<in>set (elapsed_samples ?cfg (sample_env ?ts (list2Cmdline ''cmd''))). \<bar>sint x\<bar> \<le> 50"
    unfolding xs by simp
  have range: "sint (runs ?cfg) * 50 < 2 ^ 63" by simp
  from running_mean_and_final_mean [OF ok bound range] show ?thesis
    unfolding xs by (simp add: updateRunningMean_def quo64_def signed_divide_int_def)
qed

text \<open>
  Five runs of 0, 1, 2, 3 and 4 ns: every running mean is 0, the recomputed mean is 2,
  so the two differ by more than one unit of truncation.
\<close>

theorem running_mean_drift_counterexample:
  "is_Ok (fst (runBenchmark \<lparr>runs = 5, warmup = 0\<rparr> (sample_env [])
       (sample_env [0, 1, 2, 3, 4]) timer0 ''cmd'')) \<and>
   \<not> \<bar>sint (mean (the_Ok (fst (runBenchmark \<lparr>runs = 5, warmup = 0\<rparr> (sample_env [])
       (sample_env [0, 1, 2, 3, 4]) timer0 ''cmd''))))
      - sint (estimate (last (snd (runBenchmark \<lparr>runs = 5, warmup = 0\<rparr> (sample_env [])
       (sample_env [0, 1, 2, 3, 4]) timer0 ''cmd''))))\<bar> \<le> 1"
proof -
  let ?cfg = "\<lparr>runs = 5, warmup = 0\<rparr>"
  let ?ts = "[0, 1, 2, 3, 4] :: int64 list"
  let ?rb = "runBenchmark ?cfg (sample_env []) (sample_env ?ts) timer0 ''cmd''"
  have ok: "?rb = (Ok (the_Ok (fst ?rb)), snd ?rb)"
    by (rule runBenchmark_sample_env) simp_all
  have xs: "elapsed_samples ?cfg (sample_env ?ts (list2Cmdline ''cmd'')) = ?ts"
    by (rule elapsed_samples_sample_env) simp
  have isok: "is_Ok (fst ?rb)" by (subst ok) simp
  have q: "quo64 (sum_list ?ts) (runs ?cfg) = 2" by code_simp
  have m: "mean (the_Ok (fst ?rb)) = 2"
    using runBenchmark_Ok_samples(5) [OF ok] unfolding xs q .
  have rm: "running_means 0 0 ?ts = [0, 0, 0, 0, 0]" by code_simp
  have est: "map estimate (snd ?rb) = [0, 0, 0, 0, 0]"
    using runBenchmark_Ok_samples(7) [OF ok] unfolding xs rm .
  have "snd ?rb \<noteq> []" using est by auto
  then have "estimate (last (snd ?rb)) = last (map estimate (snd ?rb))"
    by (simp add: last_map)
  then have "estimate (last (snd ?rb)) = 0" by (simp add: est)
  with isok m show ?thesis by simp
qed

section \<open>The empty-command branch\<close>

text \<open>
  Claim C10.  \<open>list2Cmdline\<close> returns at least one part for every input, and the
  one-element list of the empty string for the empty input.  So neither
  \<open>runBenchmark\<close> nor \<open>runSetup\<close> ever returns the error of the empty command
  string.
\<close>

theorem empty_command_unreachable:
  "1 \<le> length (list2Cmdline c) \<and> list2Cmdline [] = [[]] \<and>
   fst (runBenchmark cfg warm_env timer_env tm c) \<noteq> Err EmptyCommandString \<and>
   runSetup env c \<noteq> Some EmptyCommandString"
proof (intro conjI)
  show "1 \<le> length (list2Cmdline c)"
    using list2Cmdline_nonempty [of c] by (cases "list2Cmdline c") simp_all
  show "list2Cmdline [] = [[]]"
    by (simp add: list2Cmdline_def list2Cmdline_loop.simps)
  show "fst (runBenchmark cfg warm_env timer_env tm c) \<noteq> Err EmptyCommandString"
    using runBenchmark_Err [of cfg warm_env timer_env tm c EmptyCommandString] by blast
  show "runSetup env c \<noteq> Some EmptyCommandString"
    by (cases "cmd_Run (env (list2Cmdline c))")
      (simp_all add: runSetup_def Let_def list2Cmdline_nonempty)
qed

section \<open>The comparison summary is ranked by mean\<close>





end
